theory Spec2Isabelle
  imports Main "HOL-Library.Sublist"
begin

section \<open>JavaScript strings\<close>

text \<open>
  A JavaScript string is modelled by the list of the bytes of its UTF-8 encoding
  (\<^typ>\<open>string\<close>): the response body arrives as UTF-8, and every string operation the chat
  scripts use (\<open>split\<close>, \<open>startsWith\<close>, \<open>slice(6)\<close> after a six-character ASCII prefix,
  \<open>===\<close>, \<open>+=\<close>, \<open>trim\<close>) acts on the encoded bytes as it does on the code units, since an
  ASCII byte never occurs inside a multi-byte character.
\<close>

text \<open>\<open>s.split(sep)\<close> for a one-character separator: never the empty list.\<close>

fun split_on :: "char \<Rightarrow> string \<Rightarrow> string list" where
  "split_on sep [] = [[]]"
| "split_on sep (c # cs) =
     (if c = sep then [] # split_on sep cs
      else (case split_on sep cs of
              [] \<Rightarrow> [[c]]
            | w # ws \<Rightarrow> (c # w) # ws))"

text \<open>\<open>line.startsWith(p)\<close>.\<close>

definition startsWith :: "string \<Rightarrow> string \<Rightarrow> bool" where
  "startsWith s p = (take (length p) s = p)"

text \<open>
  White space and line terminators of ECMAScript, as UTF-8: TAB, LF, VT, FF, CR, SP, U+00A0,
  U+1680, U+2000 to U+200A, U+2028, U+2029, U+202F, U+205F, U+3000, U+FEFF.
\<close>

definition js_whitespace :: "string list" where
  "js_whitespace =
     [[CHR 0x09], [CHR 0x0A], [CHR 0x0B], [CHR 0x0C], [CHR 0x0D], [CHR 0x20],
      [CHR 0xC2, CHR 0xA0], [CHR 0xE1, CHR 0x9A, CHR 0x80],
      [CHR 0xE2, CHR 0x80, CHR 0x80], [CHR 0xE2, CHR 0x80, CHR 0x81],
      [CHR 0xE2, CHR 0x80, CHR 0x82], [CHR 0xE2, CHR 0x80, CHR 0x83],
      [CHR 0xE2, CHR 0x80, CHR 0x84], [CHR 0xE2, CHR 0x80, CHR 0x85],
      [CHR 0xE2, CHR 0x80, CHR 0x86], [CHR 0xE2, CHR 0x80, CHR 0x87],
      [CHR 0xE2, CHR 0x80, CHR 0x88], [CHR 0xE2, CHR 0x80, CHR 0x89],
      [CHR 0xE2, CHR 0x80, CHR 0x8A], [CHR 0xE2, CHR 0x80, CHR 0xA8],
      [CHR 0xE2, CHR 0x80, CHR 0xA9], [CHR 0xE2, CHR 0x80, CHR 0xAF],
      [CHR 0xE2, CHR 0x81, CHR 0x9F], [CHR 0xE3, CHR 0x80, CHR 0x80],
      [CHR 0xEF, CHR 0xBB, CHR 0xBF]]"

text \<open>The number of bytes of the white space character a string starts (ends) with, or 0.\<close>

definition ws_at_start :: "string \<Rightarrow> nat" where
  "ws_at_start s = (case find (\<lambda>w. prefix w s) js_whitespace of None \<Rightarrow> 0 | Some w \<Rightarrow> length w)"

definition ws_at_end :: "string \<Rightarrow> nat" where
  "ws_at_end s = (case find (\<lambda>w. suffix w s) js_whitespace of None \<Rightarrow> 0 | Some w \<Rightarrow> length w)"

lemma ws_at_start_le: "ws_at_start s \<le> length s"
  by (auto simp: ws_at_start_def find_Some_iff prefix_length_le split: option.splits)

lemma ws_at_end_le: "ws_at_end s \<le> length s"
  by (auto simp: ws_at_end_def find_Some_iff suffix_length_le split: option.splits)

function trimStart :: "string \<Rightarrow> string" where
  "trimStart s = (if ws_at_start s = 0 then s else trimStart (drop (ws_at_start s) s))"
  by pat_completeness auto
termination
proof (relation "measure length")
  show "wf (measure length)" by simp
next
  fix s :: string
  assume "ws_at_start s \<noteq> 0"
  with ws_at_start_le [of s] show "(drop (ws_at_start s) s, s) \<in> measure length"
    by simp
qed

function trimEnd :: "string \<Rightarrow> string" where
  "trimEnd s = (if ws_at_end s = 0 then s else trimEnd (take (length s - ws_at_end s) s))"
  by pat_completeness auto
termination
proof (relation "measure length")
  show "wf (measure length)" by simp
next
  fix s :: string
  assume "ws_at_end s \<noteq> 0"
  with ws_at_end_le [of s] show "(take (length s - ws_at_end s) s, s) \<in> measure length"
    by simp
qed

text \<open>\<open>s.trim()\<close>.\<close>

definition trim :: "string \<Rightarrow> string" where
  "trim s = trimEnd (trimStart s)"

text \<open>
  \<open>s.length\<close>, the number of UTF-16 code units: one for each character of one to three
  bytes, two for each character of four bytes. A byte from \<open>0x80\<close> to \<open>0xBF\<close> continues a
  character, a byte from \<open>0xF0\<close> on starts one of four bytes.
\<close>

definition js_length :: "string \<Rightarrow> nat" where
  "js_length s =
     length (filter (\<lambda>c. (of_char c :: nat) < 128 \<or> 192 \<le> (of_char c :: nat)) s)
     + length (filter (\<lambda>c. 240 \<le> (of_char c :: nat)) s)"

section \<open>JSON values and \<open>JSON.parse\<close>\<close>

text \<open>
  The values \<open>JSON.parse\<close> can return. A string is kept as its UTF-8 bytes, an object as its
  members in source order. A number is kept as the two observations these scripts can make
  of it: whether it is zero (its truthiness) and its decimal text (what \<open>+=\<close> appends); the
  IEEE double behind them is not modelled.
\<close>

datatype jsvalue =
    JNull
  | JBool bool
  | JNumber (is_zero: bool) (num_text: string)
  | JString string
  | JArray "jsvalue list"
  | JObject "(string \<times> jsvalue) list"

text \<open>
  Property read \<open>v.name\<close> on a parsed value, for a name that no prototype defines (such as
  \<open>content\<close>, \<open>response\<close>, \<open>message\<close>): \<open>Inl ()\<close> is the TypeError of reading a property of
  \<open>null\<close>, \<open>Inr None\<close> is \<open>undefined\<close>. Of duplicate members the last one wins.
\<close>

fun js_get :: "jsvalue \<Rightarrow> string \<Rightarrow> unit + jsvalue option" where
  "js_get JNull name = Inl ()"
| "js_get (JObject members) name = Inr (map_of (rev members) name)"
| "js_get v name = Inr None"

text \<open>ToBoolean, on a value that may be \<open>undefined\<close>.\<close>

fun truthy :: "jsvalue option \<Rightarrow> bool" where
  "truthy None = False"
| "truthy (Some JNull) = False"
| "truthy (Some (JBool b)) = b"
| "truthy (Some (JNumber z t)) = (\<not> z)"
| "truthy (Some (JString s)) = (s \<noteq> [])"
| "truthy (Some (JArray xs)) = True"
| "truthy (Some (JObject members)) = True"

text \<open>\<open>xs.join(sep)\<close> on strings.\<close>

fun join :: "string \<Rightarrow> string list \<Rightarrow> string" where
  "join sep [] = []"
| "join sep [w] = w"
| "join sep (w # v # ws) = w @ sep @ join sep (v # ws)"

text \<open>
  ToString, as \<open>s += v\<close> applies it to a parsed value: an array is its elements joined by
  commas, with \<open>null\<close> elements empty; an object is \<open>[object Object]\<close>, unless it has a
  member named \<open>toString\<close>, which hides the method of the prototype and is not callable:
  then the conversion is a TypeError, here \<open>None\<close>.
\<close>

fun js_to_string :: "jsvalue \<Rightarrow> string option" where
  "js_to_string JNull = Some ''null''"
| "js_to_string (JBool b) = Some (if b then ''true'' else ''false'')"
| "js_to_string (JNumber z t) = Some t"
| "js_to_string (JString s) = Some s"
| "js_to_string (JArray xs) =
     map_option (join '','')
       (those (map (\<lambda>x. if x = JNull then Some [] else js_to_string x) xs))"
| "js_to_string (JObject members) =
     (if ''toString'' \<in> fst ` set members then None else Some ''[object Object]'')"

subsection \<open>A parser for the JSON grammar\<close>

text \<open>
  The functions that consume a stream take \<open>JSON.parse\<close> as a parameter, and the general
  theorems hold for every such function. \<open>JSON_parse\<close> below is the parser the concrete
  runs use: the grammar of ECMA-404 in full (\<open>None\<close> is the SyntaxError), with the value of
  a number literal approximated as \<open>number_of_literal\<close> says.
\<close>

datatype token =
    TLBrace | TRBrace | TLBracket | TRBracket | TColon | TComma
  | TString string | TNumber bool string | TTrue | TFalse | TNull

definition is_digit :: "char \<Rightarrow> bool" where
  "is_digit c = (48 \<le> (of_char c :: nat) \<and> (of_char c :: nat) \<le> 57)"

definition hex_val :: "char \<Rightarrow> nat option" where
  "hex_val c =
     (let n = (of_char c :: nat) in
      if 48 \<le> n \<and> n \<le> 57 then Some (n - 48)
      else if 65 \<le> n \<and> n \<le> 70 then Some (n - 55)
      else if 97 \<le> n \<and> n \<le> 102 then Some (n - 87)
      else None)"

text \<open>The character a two-character escape stands for.\<close>

definition simple_escape :: "char \<Rightarrow> char option" where
  "simple_escape e =
     (if e = CHR 0x22 then Some (CHR 0x22)
      else if e = CHR 0x5C then Some (CHR 0x5C)
      else if e = CHR ''/'' then Some (CHR ''/'')
      else if e = CHR ''b'' then Some (CHR 0x08)
      else if e = CHR ''f'' then Some (CHR 0x0C)
      else if e = CHR ''n'' then Some (CHR 0x0A)
      else if e = CHR ''r'' then Some (CHR 0x0D)
      else if e = CHR ''t'' then Some (CHR 0x09)
      else None)"

text \<open>
  The content of a string literal: bytes taken from the text as they are, and the code
  units that \<open>\\uXXXX\<close> escapes give.
\<close>

datatype str_unit = Byte char | Escaped nat

text \<open>
  The string literal whose opening quote has just been read: its units, and how many
  characters it takes up to and including the closing quote.
\<close>

fun lex_string :: "string \<Rightarrow> (str_unit list \<times> nat) option" where
  "lex_string [] = None"
| "lex_string (c # cs) =
     (if c = CHR 0x22 then Some ([], 1)
      else if c = CHR 0x5C then
        (case cs of
           [] \<Rightarrow> None
         | e # r \<Rightarrow>
             if e = CHR ''u'' then
               (case r of
                  h3 # h2 # h1 # h0 # r' \<Rightarrow>
                    (case (hex_val h3, hex_val h2, hex_val h1, hex_val h0) of
                       (Some x3, Some x2, Some x1, Some x0) \<Rightarrow>
                         map_option
                           (\<lambda>(us, n). (Escaped (((x3 * 16 + x2) * 16 + x1) * 16 + x0) # us, n + 6))
                           (lex_string r')
                     | _ \<Rightarrow> None)
                | _ \<Rightarrow> None)
             else
               (case simple_escape e of
                  None \<Rightarrow> None
                | Some x \<Rightarrow> map_option (\<lambda>(us, n). (Byte x # us, n + 2)) (lex_string r)))
      else if (of_char c :: nat) < 32 then None
      else map_option (\<lambda>(us, n). (Byte c # us, n + 1)) (lex_string cs))"

text \<open>UTF-8 of a code point (a lone surrogate is encoded like any three-byte code point).\<close>

definition utf8 :: "nat \<Rightarrow> string" where
  "utf8 cp =
     (if cp < 128 then [char_of cp]
      else if cp < 2048 then [char_of (192 + cp div 64), char_of (128 + cp mod 64)]
      else if cp < 65536 then
        [char_of (224 + cp div 4096), char_of (128 + cp div 64 mod 64), char_of (128 + cp mod 64)]
      else
        [char_of (240 + cp div 262144), char_of (128 + cp div 4096 mod 64),
         char_of (128 + cp div 64 mod 64), char_of (128 + cp mod 64)])"

text \<open>The string a literal denotes; an escaped surrogate pair is one code point.\<close>

fun units_to_string :: "str_unit list \<Rightarrow> string" where
  "units_to_string [] = []"
| "units_to_string (Byte c # us) = c # units_to_string us"
| "units_to_string (Escaped hi # Escaped lo # us) =
     (if 55296 \<le> hi \<and> hi < 56320 \<and> 56320 \<le> lo \<and> lo < 57344
      then utf8 (65536 + (hi - 55296) * 1024 + (lo - 56320)) @ units_to_string us
      else utf8 hi @ units_to_string (Escaped lo # us))"
| "units_to_string (Escaped u # us) = utf8 u @ units_to_string us"

text \<open>
  The number literal a text starts with: how many characters it takes, whether it is
  zero, and its decimal text. The grammar is exact. The two observations are exact for an
  integer literal of magnitude up to \<open>2^53\<close> and for every literal of value zero; for another
  literal the text is the literal as written, where the platform prints the shortest
  decimal that reads back as the same double, and a non-zero literal too small for a double
  counts as non-zero here.
\<close>

definition number_of_literal :: "string \<Rightarrow> (nat \<times> bool \<times> string) option" where
  "number_of_literal s =
     (let sgn = (if startsWith s ''-'' then ''-'' else []);
          s1 = drop (length sgn) s;
          ip = takeWhile is_digit s1;
          s2 = drop (length ip) s1;
          fd = (if startsWith s2 ''.'' then takeWhile is_digit (drop 1 s2) else []);
          fp = (if startsWith s2 ''.'' then CHR ''.'' # fd else []);
          s3 = drop (length fp) s2;
          has_exp = (startsWith s3 ''e'' \<or> startsWith s3 ''E'');
          es = (if has_exp \<and> (startsWith (drop 1 s3) ''+'' \<or> startsWith (drop 1 s3) ''-'')
                then take 1 (drop 1 s3) else []);
          ed = (if has_exp then takeWhile is_digit (drop (1 + length es) s3) else []);
          ep = (if has_exp then take 1 s3 @ es @ ed else []);
          zero = (\<forall>d \<in> set (ip @ fd). d = CHR ''0'')
      in if ip = [] \<or> (1 < length ip \<and> hd ip = CHR ''0'') then None
         else if startsWith s2 ''.'' \<and> fd = [] then None
         else if has_exp \<and> ed = [] then None
         else Some (length (sgn @ ip @ fp @ ep), zero,
                    if zero then ''0'' else sgn @ ip @ fp @ ep))"

text \<open>The tokens of a text; \<open>None\<close> when some character starts no token.\<close>

fun lex :: "string \<Rightarrow> token list option" where
  "lex [] = Some []"
| "lex (c # cs) =
     (if c = CHR 0x20 \<or> c = CHR 0x09 \<or> c = CHR 0x0A \<or> c = CHR 0x0D then lex cs
      else if c = CHR ''{'' then map_option (Cons TLBrace) (lex cs)
      else if c = CHR ''}'' then map_option (Cons TRBrace) (lex cs)
      else if c = CHR ''['' then map_option (Cons TLBracket) (lex cs)
      else if c = CHR '']'' then map_option (Cons TRBracket) (lex cs)
      else if c = CHR '':'' then map_option (Cons TColon) (lex cs)
      else if c = CHR '','' then map_option (Cons TComma) (lex cs)
      else if c = CHR 0x22 then
        (case lex_string cs of
           None \<Rightarrow> None
         | Some (us, n) \<Rightarrow> map_option (Cons (TString (units_to_string us))) (lex (drop n cs)))
      else if c = CHR ''-'' \<or> is_digit c then
        (case number_of_literal (c # cs) of
           None \<Rightarrow> None
         | Some (n, z, t) \<Rightarrow> map_option (Cons (TNumber z t)) (lex (drop (n - 1) cs)))
      else if startsWith (c # cs) ''true'' then map_option (Cons TTrue) (lex (drop 3 cs))
      else if startsWith (c # cs) ''false'' then map_option (Cons TFalse) (lex (drop 4 cs))
      else if startsWith (c # cs) ''null'' then map_option (Cons TNull) (lex (drop 3 cs))
      else None)"

text \<open>
  The parser is a pushdown automaton over the tokens. A frame of its stack is an array or
  an object under construction that waits for a nested value to be completed.
\<close>

datatype frame =
    FArray "jsvalue list"
  | FObject "(string \<times> jsvalue) list" string

datatype pstate =
    PValue "frame list" bool
  | PAfterElem "jsvalue list" "frame list"
  | PKey "(string \<times> jsvalue) list" "frame list" bool
  | PColon "(string \<times> jsvalue) list" string "frame list"
  | PAfterMember "(string \<times> jsvalue) list" "frame list"
  | PDone jsvalue

text \<open>A value is complete: it is the result, or goes into the frame on top.\<close>

fun complete :: "jsvalue \<Rightarrow> frame list \<Rightarrow> pstate" where
  "complete v [] = PDone v"
| "complete v (FArray xs # st) = PAfterElem (xs @ [v]) st"
| "complete v (FObject ms k # st) = PAfterMember (ms @ [(k, v)]) st"

text \<open>
  One token. \<open>PValue st first\<close> expects a value, and accepts \<open>]\<close> when \<open>first\<close> (right after
  \<open>[\<close>); \<open>PKey ms st first\<close> expects a member name, and accepts \<open>}\<close> when \<open>first\<close>.
\<close>

fun pstep :: "pstate \<Rightarrow> token \<Rightarrow> pstate option" where
  "pstep (PValue st first) (TString s) = Some (complete (JString s) st)"
| "pstep (PValue st first) (TNumber z t) = Some (complete (JNumber z t) st)"
| "pstep (PValue st first) TTrue = Some (complete (JBool True) st)"
| "pstep (PValue st first) TFalse = Some (complete (JBool False) st)"
| "pstep (PValue st first) TNull = Some (complete JNull st)"
| "pstep (PValue st first) TLBracket = Some (PValue (FArray [] # st) True)"
| "pstep (PValue st first) TLBrace = Some (PKey [] st True)"
| "pstep (PValue (FArray xs # st) True) TRBracket = Some (complete (JArray xs) st)"
| "pstep (PAfterElem xs st) TComma = Some (PValue (FArray xs # st) False)"
| "pstep (PAfterElem xs st) TRBracket = Some (complete (JArray xs) st)"
| "pstep (PKey ms st first) (TString k) = Some (PColon ms k st)"
| "pstep (PKey ms st True) TRBrace = Some (complete (JObject ms) st)"
| "pstep (PColon ms k st) TColon = Some (PValue (FObject ms k # st) False)"
| "pstep (PAfterMember ms st) TComma = Some (PKey ms st False)"
| "pstep (PAfterMember ms st) TRBrace = Some (complete (JObject ms) st)"
| "pstep p t = None"

fun prun :: "pstate \<Rightarrow> token list \<Rightarrow> jsvalue option" where
  "prun (PDone v) [] = Some v"
| "prun p [] = None"
| "prun p (t # ts) = (case pstep p t of None \<Rightarrow> None | Some p' \<Rightarrow> prun p' ts)"

definition JSON_parse :: "string \<Rightarrow> jsvalue option" where
  "JSON_parse text = (case lex text of None \<Rightarrow> None | Some ts \<Rightarrow> prun (PValue [] False) ts)"

section \<open>The streaming chat page (\<open>ai-server-main/frontend/script.js\<close>, class \<open>FaramexChat\<close>)\<close>

datatype sender = User | Agent

text \<open>
  A message element of the chat: \<open>addMessage\<close> and \<open>updateMessage\<close> put \<open>formatMessage(content)\<close>
  into it; the model keeps \<open>content\<close>, the argument of \<open>formatMessage\<close>.
\<close>

record message =
  msg_sender :: sender
  msg_content :: string
  msg_images :: "string list"

text \<open>The body of a \<open>POST /api/v1/chat\<close>.\<close>

record request =
  req_message :: string
  req_images :: "string list"

text \<open>
  The fields of the instance and of the page that \<open>sendMessage\<close> and \<open>sendToAPI\<close> read or
  write. An attached image is its \<open>url\<close>. The scroll position and the height of the input are
  not modelled. \<open>requests\<close> are the calls of \<open>fetch\<close> so far, \<open>sounds\<close> counts the calls of
  \<open>playNotificationSound\<close>.
\<close>

record chat =
  input_value :: string
  attachedImages :: "string list"
  images_preview :: "string list"
  chatMessages :: "message list"
  typingIndicator :: bool
  charCount :: nat
  sendBtn_disabled :: bool
  soundNotifications :: bool
  sounds :: nat
  requests :: "request list"

datatype js_error = NetworkError | HttpError nat | TypeError | SyntaxError | StreamError

text \<open>
  How an \<open>async\<close> call ends: its promise is fulfilled with a value, is rejected with an
  error, or never settles because something it awaits never does.
\<close>

datatype 'a promise = Fulfilled 'a | Rejected js_error | Pending

text \<open>
  What one \<open>await reader.read()\<close> gives: a chunk (here the text \<open>decoder.decode(value)\<close> makes
  of it; the decoder is called without the \<open>stream\<close> option, so each chunk is decoded on its
  own), \<open>done\<close>, or a rejection. A read event pairs it with the milliseconds the read took to
  settle. A body whose reads run out is one whose next read never settles.
\<close>

datatype read_result = Chunk string | Done | ReadFailed

type_synonym read_event = "nat \<times> read_result"

text \<open>
  What \<open>await fetch(...)\<close> gives: a rejection, nothing ever, or a response with \<open>ok\<close>,
  \<open>status\<close> and \<open>body\<close> (\<open>None\<close> is a \<open>null\<close> body).
\<close>

datatype fetch_result =
    FetchFailed
  | FetchPending
  | Response bool nat "read_event list option"

definition addMessage :: "sender \<Rightarrow> string \<Rightarrow> string list \<Rightarrow> chat \<Rightarrow> chat \<times> nat" where
  "addMessage who content images c =
     (c\<lparr>chatMessages := chatMessages c @
          [\<lparr>msg_sender = who, msg_content = content, msg_images = images\<rparr>]\<rparr>,
      length (chatMessages c))"

definition updateMessage :: "nat \<Rightarrow> string \<Rightarrow> chat \<Rightarrow> chat" where
  "updateMessage el content c =
     c\<lparr>chatMessages := (chatMessages c)[el := (chatMessages c ! el)\<lparr>msg_content := content\<rparr>]\<rparr>"

definition showTypingIndicator :: "chat \<Rightarrow> chat" where
  "showTypingIndicator c = c\<lparr>typingIndicator := True\<rparr>"

definition hideTypingIndicator :: "chat \<Rightarrow> chat" where
  "hideTypingIndicator c = c\<lparr>typingIndicator := False\<rparr>"

definition handleInputChange :: "chat \<Rightarrow> chat" where
  "handleInputChange c =
     c\<lparr>charCount := js_length (input_value c),
       sendBtn_disabled := (js_length (input_value c) = 0 \<and> length (attachedImages c) = 0)\<rparr>"

definition renderAttachedImages :: "chat \<Rightarrow> chat" where
  "renderAttachedImages c = c\<lparr>images_preview := attachedImages c\<rparr>"

definition uploadImages :: "chat \<Rightarrow> string list" where
  "uploadImages c = attachedImages c"

definition playNotificationSound :: "chat \<Rightarrow> chat" where
  "playNotificationSound c = c\<lparr>sounds := Suc (sounds c)\<rparr>"

text \<open>
  The locals of \<open>sendToAPI\<close> while it reads the body, with the page. \<open>messageElement\<close> is the
  index of the agent's message among \<open>chatMessages\<close>.
\<close>

record stream_state =
  agentMessage :: string
  messageElement :: "nat option"
  page :: chat

text \<open>
  \<open>if (!messageElement) messageElement = this.addMessage('agent', agentMessage);
  else this.updateMessage(messageElement, agentMessage);\<close>
\<close>

definition show_agentMessage :: "stream_state \<Rightarrow> stream_state" where
  "show_agentMessage s =
     (case messageElement s of
        None \<Rightarrow>
          (let (c, el) = addMessage Agent (agentMessage s) [] (page s)
           in s\<lparr>messageElement := Some el, page := c\<rparr>)
      | Some el \<Rightarrow> s\<lparr>page := updateMessage el (agentMessage s) (page s)\<rparr>)"

text \<open>
  \<open>if (jsonData.content) agentMessage += jsonData.content;\<close> gives the new text, or \<open>None\<close>
  when the content cannot be converted to a string.
\<close>

fun append_content :: "jsvalue option \<Rightarrow> string \<Rightarrow> string option" where
  "append_content None acc = Some acc"
| "append_content (Some v) acc =
     (if truthy (Some v) then map_option (\<lambda>t. acc @ t) (js_to_string v) else Some acc)"

text \<open>
  The \<open>try\<close> block for one payload; \<open>parse\<close> is \<open>JSON.parse\<close>. It throws when the payload
  does not parse, when it parses to \<open>null\<close>, and when the content cannot be converted to a
  string.
\<close>

definition try_frame :: "(string \<Rightarrow> jsvalue option) \<Rightarrow> string \<Rightarrow> stream_state \<Rightarrow> js_error + stream_state" where
  "try_frame parse data s =
     (case parse data of
        None \<Rightarrow> Inl SyntaxError
      | Some jsonData \<Rightarrow>
          (case js_get jsonData ''content'' of
             Inl _ \<Rightarrow> Inl TypeError
           | Inr content \<Rightarrow>
               (case append_content content (agentMessage s) of
                  None \<Rightarrow> Inl TypeError
                | Some text \<Rightarrow> Inr (show_agentMessage (s\<lparr>agentMessage := text\<rparr>)))))"

text \<open>The \<open>catch\<close> block: the payload is plain text.\<close>

definition catch_frame :: "string \<Rightarrow> stream_state \<Rightarrow> stream_state" where
  "catch_frame data s = show_agentMessage (s\<lparr>agentMessage := agentMessage s @ data\<rparr>)"

text \<open>The body of \<open>for (const line of lines)\<close>.\<close>

definition process_line :: "(string \<Rightarrow> jsvalue option) \<Rightarrow> string \<Rightarrow> stream_state \<Rightarrow> stream_state" where
  "process_line parse line s =
     (if startsWith line ''data: '' then
        (let data = drop 6 line in
         if data = ''[DONE]'' then s
         else (case try_frame parse data s of
                 Inr s' \<Rightarrow> s'
               | Inl e \<Rightarrow> catch_frame data s))
      else s)"

text \<open>\<open>const lines = chunk.split('\\n'); for (const line of lines) ...\<close>\<close>

definition process_chunk :: "(string \<Rightarrow> jsvalue option) \<Rightarrow> string \<Rightarrow> stream_state \<Rightarrow> stream_state" where
  "process_chunk parse chunk s =
     foldl (\<lambda>s line. process_line parse line s) s (split_on (CHR 0x0A) chunk)"

text \<open>\<open>while (true) { const { done, value } = await reader.read(); if (done) break; ... }\<close>\<close>

fun read_loop :: "(string \<Rightarrow> jsvalue option) \<Rightarrow> read_event list \<Rightarrow> stream_state \<Rightarrow> stream_state \<times> unit promise" where
  "read_loop parse [] s = (s, Pending)"
| "read_loop parse ((ms, Done) # evs) s = (s, Fulfilled ())"
| "read_loop parse ((ms, ReadFailed) # evs) s = (s, Rejected StreamError)"
| "read_loop parse ((ms, Chunk chunk) # evs) s = read_loop parse evs (process_chunk parse chunk s)"

definition sendToAPI ::
  "(string \<Rightarrow> jsvalue option) \<Rightarrow> fetch_result \<Rightarrow> string \<Rightarrow> string list \<Rightarrow> chat \<Rightarrow> chat \<times> unit promise" where
  "sendToAPI parse fetched message images c =
     (let c1 = c\<lparr>requests := requests c @ [\<lparr>req_message = message, req_images = images\<rparr>]\<rparr>
      in case fetched of
           FetchFailed \<Rightarrow> (c1, Rejected NetworkError)
         | FetchPending \<Rightarrow> (c1, Pending)
         | Response ok status body \<Rightarrow>
             if \<not> ok then (c1, Rejected (HttpError status))
             else (case body of
                     None \<Rightarrow> (c1, Rejected TypeError)
                   | Some reads \<Rightarrow>
                       (case read_loop parse reads
                               \<lparr>agentMessage = [], messageElement = None,
                                page = hideTypingIndicator c1\<rparr> of
                          (s, Fulfilled u) \<Rightarrow>
                            (if soundNotifications (page s) then playNotificationSound (page s)
                             else page s, Fulfilled ())
                        | (s, out) \<Rightarrow> (page s, out))))"

text \<open>The message of the \<open>catch\<close> block of \<open>sendMessage\<close>.\<close>

definition chat_apology :: string where
  "chat_apology =
     ''Xin l'' @ [CHR 0xE1, CHR 0xBB, CHR 0x97] @ ''i, '' @ [CHR 0xC4, CHR 0x91, CHR 0xC3, CHR 0xA3] @
     '' c'' @ [CHR 0xC3, CHR 0xB3] @ '' l'' @ [CHR 0xE1, CHR 0xBB, CHR 0x97] @ ''i x'' @
     [CHR 0xE1, CHR 0xBA, CHR 0xA3] @ ''y ra khi x'' @ [CHR 0xE1, CHR 0xBB, CHR 0xAD] @ '' l'' @
     [CHR 0xC3, CHR 0xBD] @ '' tin nh'' @ [CHR 0xE1, CHR 0xBA, CHR 0xAF] @ ''n c'' @
     [CHR 0xE1, CHR 0xBB, CHR 0xA7] @ ''a b'' @ [CHR 0xE1, CHR 0xBA, CHR 0xA1] @ ''n. Vui l'' @
     [CHR 0xC3, CHR 0xB2] @ ''ng th'' @ [CHR 0xE1, CHR 0xBB, CHR 0xAD] @ '' l'' @
     [CHR 0xE1, CHR 0xBA, CHR 0xA1] @ ''i.''"

definition sendMessage :: "(string \<Rightarrow> jsvalue option) \<Rightarrow> fetch_result \<Rightarrow> chat \<Rightarrow> chat \<times> unit promise" where
  "sendMessage parse fetched c =
     (let message = trim (input_value c) in
      if message = [] \<and> length (attachedImages c) = 0 then (c, Fulfilled ())
      else
        (let imageUrls = uploadImages c;
             c1 = fst (addMessage User message imageUrls c);
             c2 = c1\<lparr>input_value := []\<rparr>;
             c3 = c2\<lparr>attachedImages := []\<rparr>;
             c4 = handleInputChange (renderAttachedImages c3);
             c5 = showTypingIndicator c4
         in case sendToAPI parse fetched message imageUrls c5 of
              (c6, Rejected error) \<Rightarrow>
                (fst (addMessage Agent chat_apology [] (hideTypingIndicator c6)), Fulfilled ())
            | (c6, out) \<Rightarrow> (c6, out)))"

section \<open>The dashboard chat (\<open>ai-proma/frontend/dashboard-script.js\<close> and \<open>dashboard-script-new.js\<close>, class \<open>PromaDashboard\<close>)\<close>

text \<open>
  The fields of the instance and of the page that \<open>sendMessage\<close>, \<open>callAI\<close> and
  \<open>typeAIResponse\<close> read or write; the page has the elements the constructor looks up. A
  message bubble is its sender and the text given to \<open>formatMessage\<close>. The typing indicator is
  an element that \<open>showTypingIndicator\<close> creates and \<open>hideTypingIndicator\<close> removes:
  \<open>typing_indicators\<close> counts the elements with the id \<open>typing-indicator\<close>. \<open>aiThinking\<close> holds
  when \<open>#ai-thinking\<close> is shown and \<open>#ai-status\<close> hidden. \<open>posted\<close> are the messages sent with
  \<open>fetch\<close> so far.
\<close>

record dashboard =
  chat_input :: string
  attached :: "string list"
  bubbles :: "(sender \<times> string) list"
  typing_indicators :: nat
  aiThinking :: bool
  shown_count :: nat
  send_disabled :: bool
  posted :: "string list"

text \<open>
  What the script shows while it types a response: a partial text put into the bubble, and
  a timer of \<open>lo + Math.random() * (hi - lo)\<close> milliseconds that it awaits.
\<close>

datatype ui_event = Render string | Wait nat nat

text \<open>
  What \<open>fetch\<close> and then \<open>response.json()\<close> give \<open>callAI\<close>: the body parsed as JSON, a body
  that is not JSON, or a body that never ends.
\<close>

datatype json_body = BodyJson jsvalue | BodyInvalid | BodyPending

datatype http_result =
    HttpFailed
  | HttpPending
  | HttpResponse bool nat json_body

definition dash_addMessage :: "sender \<Rightarrow> string \<Rightarrow> dashboard \<Rightarrow> dashboard \<times> nat" where
  "dash_addMessage who content d =
     (d\<lparr>bubbles := bubbles d @ [(who, content)]\<rparr>, length (bubbles d))"

definition dash_handleInputChange :: "dashboard \<Rightarrow> dashboard" where
  "dash_handleInputChange d =
     d\<lparr>shown_count := js_length (chat_input d),
       send_disabled := (trim (chat_input d) = [] \<and> length (attached d) = 0)\<rparr>"

definition dash_hideTypingIndicator :: "dashboard \<Rightarrow> dashboard" where
  "dash_hideTypingIndicator d = d\<lparr>typing_indicators := typing_indicators d - 1\<rparr>"

definition dash_showTypingIndicator :: "dashboard \<Rightarrow> dashboard" where
  "dash_showTypingIndicator d =
     (let d1 = dash_hideTypingIndicator d
      in d1\<lparr>typing_indicators := Suc (typing_indicators d1)\<rparr>)"

definition showAIThinking :: "dashboard \<Rightarrow> dashboard" where
  "showAIThinking d = d\<lparr>aiThinking := True\<rparr>"

definition hideAIThinking :: "dashboard \<Rightarrow> dashboard" where
  "hideAIThinking d = d\<lparr>aiThinking := False\<rparr>"

text \<open>The answer of \<open>callAI\<close> when the response has neither \<open>response\<close> nor \<open>message\<close>.\<close>

definition no_answer :: string where
  "no_answer =
     ''T'' @ [CHR 0xC3, CHR 0xB4] @ ''i kh'' @ [CHR 0xC3, CHR 0xB4] @ ''ng th'' @
     [CHR 0xE1, CHR 0xBB, CHR 0x83] @ '' tr'' @ [CHR 0xE1, CHR 0xBA, CHR 0xA3] @ '' l'' @
     [CHR 0xE1, CHR 0xBB, CHR 0x9D] @ ''i c'' @ [CHR 0xC3, CHR 0xA2] @ ''u h'' @
     [CHR 0xE1, CHR 0xBB, CHR 0x8F] @ ''i n'' @ [CHR 0xC3, CHR 0xA0] @ ''y.''"

text \<open>\<open>data.response || data.message || '...'\<close>\<close>

definition answer_of :: "jsvalue \<Rightarrow> jsvalue promise" where
  "answer_of data =
     (case js_get data ''response'' of
        Inl _ \<Rightarrow> Rejected TypeError
      | Inr r \<Rightarrow>
          if truthy r then (case r of Some v \<Rightarrow> Fulfilled v | None \<Rightarrow> Fulfilled (JString no_answer))
          else (case js_get data ''message'' of
                  Inl _ \<Rightarrow> Rejected TypeError
                | Inr m \<Rightarrow>
                    if truthy m then (case m of Some v \<Rightarrow> Fulfilled v | None \<Rightarrow> Fulfilled (JString no_answer))
                    else Fulfilled (JString no_answer)))"

definition callAI :: "http_result \<Rightarrow> string \<Rightarrow> dashboard \<Rightarrow> dashboard \<times> jsvalue promise" where
  "callAI fetched message d =
     (let d1 = d\<lparr>posted := posted d @ [message]\<rparr>
      in case fetched of
           HttpFailed \<Rightarrow> (d1, Rejected NetworkError)
         | HttpPending \<Rightarrow> (d1, Pending)
         | HttpResponse ok status body \<Rightarrow>
             if \<not> ok then (d1, Rejected (HttpError status))
             else (case body of
                     BodyInvalid \<Rightarrow> (d1, Rejected SyntaxError)
                   | BodyPending \<Rightarrow> (d1, Pending)
                   | BodyJson data \<Rightarrow> (d1, answer_of data)))"

text \<open>\<open>contentDiv.innerHTML = this.formatMessage(currentText)\<close>, on the bubble \<open>el\<close>.\<close>

definition set_bubble :: "nat \<Rightarrow> string \<Rightarrow> dashboard \<Rightarrow> dashboard" where
  "set_bubble el content d = d\<lparr>bubbles := (bubbles d)[el := (fst (bubbles d ! el), content)]\<rparr>"

text \<open>
  The loop of \<open>typeAIResponse\<close> from index \<open>i\<close> on, over the words that remain, with
  \<open>currentText\<close>; \<open>lo\<close> and \<open>hi\<close> bound the delay after each word.
\<close>

fun type_words ::
  "nat \<Rightarrow> nat \<Rightarrow> nat \<Rightarrow> nat \<Rightarrow> string list \<Rightarrow> string \<Rightarrow> dashboard \<Rightarrow> dashboard \<times> ui_event list" where
  "type_words lo hi el i [] currentText d = (d, [])"
| "type_words lo hi el i (w # ws) currentText d =
     (let currentText' = currentText @ (if 0 < i then '' '' else []) @ w;
          d' = set_bubble el currentText' d;
          (d'', evs) = type_words lo hi el (Suc i) ws currentText' d'
      in (d'', Render currentText' # Wait lo hi # evs))"

text \<open>
  \<open>typeAIResponse\<close> of \<open>dashboard-script.js\<close>. Its argument is what \<open>callAI\<close> returned; a
  value that is not a string has no \<open>split\<close>, which is a TypeError after the empty bubble
  has been added.
\<close>

definition typeAIResponse :: "jsvalue \<Rightarrow> dashboard \<Rightarrow> dashboard \<times> ui_event list \<times> unit promise" where
  "typeAIResponse text d =
     (let (d1, el) = dash_addMessage Agent [] d
      in case text of
           JString s \<Rightarrow>
             (let (d2, evs) = type_words 50 150 el 0 (split_on CHR '' '' s) [] d1
              in (d2, evs, Fulfilled ()))
         | _ \<Rightarrow> (d1, [], Rejected TypeError))"

text \<open>
  \<open>typeAIResponse\<close> of \<open>dashboard-script-new.js\<close> (and of the second class in
  \<open>dashboard-script.js\<close>): it first waits 100 ms, and its delays are shorter.
\<close>

definition typeAIResponse_new :: "jsvalue \<Rightarrow> dashboard \<Rightarrow> dashboard \<times> ui_event list \<times> unit promise" where
  "typeAIResponse_new text d =
     (let (d1, el) = dash_addMessage Agent [] d
      in case text of
           JString s \<Rightarrow>
             (let (d2, evs) = type_words 30 80 el 0 (split_on CHR '' '' s) [] d1
              in (d2, Wait 100 100 # evs, Fulfilled ()))
         | _ \<Rightarrow> (d1, [Wait 100 100], Rejected TypeError))"

text \<open>The partial texts among the events, in order.\<close>

fun renders :: "ui_event list \<Rightarrow> string list" where
  "renders [] = []"
| "renders (Render t # evs) = t # renders evs"
| "renders (Wait lo hi # evs) = renders evs"

text \<open>The message of the \<open>catch\<close> block of \<open>sendMessage\<close>.\<close>

definition dash_apology :: string where
  "dash_apology =
     ''Xin l'' @ [CHR 0xE1, CHR 0xBB, CHR 0x97] @ ''i, t'' @ [CHR 0xC3, CHR 0xB4] @ ''i g'' @
     [CHR 0xE1, CHR 0xBA, CHR 0xB7] @ ''p s'' @ [CHR 0xE1, CHR 0xBB, CHR 0xB1] @ '' c'' @
     [CHR 0xE1, CHR 0xBB, CHR 0x91] @ '' khi x'' @ [CHR 0xE1, CHR 0xBB, CHR 0xAD] @ '' l'' @
     [CHR 0xC3, CHR 0xBD] @ '' tin nh'' @ [CHR 0xE1, CHR 0xBA, CHR 0xAF] @ ''n c'' @
     [CHR 0xE1, CHR 0xBB, CHR 0xA7] @ ''a b'' @ [CHR 0xE1, CHR 0xBA, CHR 0xA1] @ ''n. Vui l'' @
     [CHR 0xC3, CHR 0xB2] @ ''ng th'' @ [CHR 0xE1, CHR 0xBB, CHR 0xAD] @ '' l'' @
     [CHR 0xE1, CHR 0xBA, CHR 0xA1] @ ''i.''"

text \<open>The \<open>catch\<close> block of \<open>sendMessage\<close>.\<close>

definition dash_catch :: "dashboard \<Rightarrow> dashboard" where
  "dash_catch d =
     fst (dash_addMessage Agent dash_apology (dash_hideTypingIndicator (hideAIThinking d)))"

text \<open>
  \<open>sendMessage\<close>, the same text in both scripts, over the \<open>typeAIResponse\<close> of the script. It
  returns the page, what was shown while typing, and how the call ended.
\<close>

definition dash_sendMessage_with ::
  "(jsvalue \<Rightarrow> dashboard \<Rightarrow> dashboard \<times> ui_event list \<times> unit promise) \<Rightarrow>
   http_result \<Rightarrow> dashboard \<Rightarrow> dashboard \<times> ui_event list \<times> unit promise" where
  "dash_sendMessage_with typer fetched d =
     (let message = trim (chat_input d) in
      if message = [] \<and> length (attached d) = 0 then (d, [], Fulfilled ())
      else
        (let d1 = fst (dash_addMessage User message d);
             d2 = dash_handleInputChange (d1\<lparr>chat_input := []\<rparr>);
             d3 = dash_showTypingIndicator (showAIThinking d2)
         in case callAI fetched message d3 of
              (d4, Fulfilled response) \<Rightarrow>
                (case typer response (dash_hideTypingIndicator (hideAIThinking d4)) of
                   (d5, evs, Rejected error) \<Rightarrow> (dash_catch d5, evs, Fulfilled ())
                 | (d5, evs, out) \<Rightarrow> (d5, evs, out))
            | (d4, Rejected error) \<Rightarrow> (dash_catch d4, [], Fulfilled ())
            | (d4, Pending) \<Rightarrow> (d4, [], Pending)))"

definition dash_sendMessage :: "http_result \<Rightarrow> dashboard \<Rightarrow> dashboard \<times> ui_event list \<times> unit promise" where
  "dash_sendMessage = dash_sendMessage_with typeAIResponse"

definition dash_sendMessage_new :: "http_result \<Rightarrow> dashboard \<Rightarrow> dashboard \<times> ui_event list \<times> unit promise" where
  "dash_sendMessage_new = dash_sendMessage_with typeAIResponse_new"

section \<open>Requests that come to an end\<close>

text \<open>
  The reads of a body come to an end: after chunks only, one read reports \<open>done\<close> or is
  rejected.
\<close>

fun ends :: "read_event list \<Rightarrow> bool" where
  "ends [] = False"
| "ends ((ms, Chunk chunk) # reads) = ends reads"
| "ends ((ms, Done) # reads) = True"
| "ends ((ms, ReadFailed) # reads) = True"

text \<open>
  The request of the chat page has a terminal outcome: \<open>fetch\<close> throws (a network error),
  the status is not a success, or the response is a success whose body is missing or is
  read to its end. It has none when \<open>fetch\<close> or a read never settles.
\<close>

fun settles :: "fetch_result \<Rightarrow> bool" where
  "settles FetchFailed = True"
| "settles FetchPending = False"
| "settles (Response ok status None) = True"
| "settles (Response ok status (Some reads)) = (\<not> ok \<or> ends reads)"

text \<open>
  The request of the dashboard has a terminal outcome: \<open>fetch\<close> throws, the status is not a
  success, or the body of a success arrives whole, JSON or not.
\<close>

fun dash_settles :: "http_result \<Rightarrow> bool" where
  "dash_settles HttpFailed = True"
| "dash_settles HttpPending = False"
| "dash_settles (HttpResponse ok status body) = (\<not> ok \<or> body \<noteq> BodyPending)"

section \<open>States used in the concrete runs\<close>

text \<open>The chat page after the constructor, with default settings and an empty conversation.\<close>

definition fresh_chat :: chat where
  "fresh_chat =
     \<lparr>input_value = [], attachedImages = [], images_preview = [], chatMessages = [],
      typingIndicator = False, charCount = 0, sendBtn_disabled = True,
      soundNotifications = False, sounds = 0, requests = []\<rparr>"

text \<open>The locals of \<open>sendToAPI\<close> before the first read.\<close>

definition fresh_stream :: "chat \<Rightarrow> stream_state" where
  "fresh_stream c = \<lparr>agentMessage = [], messageElement = None, page = c\<rparr>"

text \<open>\<open>messageElement\<close>, when set, is an element of the conversation.\<close>

definition element_ok :: "stream_state \<Rightarrow> bool" where
  "element_ok s =
     (case messageElement s of None \<Rightarrow> True | Some el \<Rightarrow> el < length (chatMessages (page s)))"

text \<open>The agent's message element exists and displays the accumulated text.\<close>

definition shows_text :: "stream_state \<Rightarrow> bool" where
  "shows_text s =
     (case messageElement s of
        None \<Rightarrow> False
      | Some el \<Rightarrow>
          el < length (chatMessages (page s)) \<and>
          msg_content (chatMessages (page s) ! el) = agentMessage s)"


text \<open>The chat page with a text typed into the input.\<close>

definition typed_chat :: "string \<Rightarrow> chat" where
  "typed_chat text =
     fresh_chat\<lparr>input_value := text, charCount := js_length text,
       sendBtn_disabled := (js_length text = 0)\<rparr>"

text \<open>The dashboard after the constructor, with an empty conversation.\<close>

definition fresh_dashboard :: dashboard where
  "fresh_dashboard =
     \<lparr>chat_input = [], attached = [], bubbles = [], typing_indicators = 0, aiThinking = False,
      shown_count = 0, send_disabled = True, posted = []\<rparr>"

text \<open>The dashboard with a text typed into the chat input.\<close>

definition typed_dashboard :: "string \<Rightarrow> dashboard" where
  "typed_dashboard text =
     fresh_dashboard\<lparr>chat_input := text, shown_count := js_length text,
       send_disabled := (trim text = [])\<rparr>"

section \<open>The typing renderer as the specification words it\<close>

text \<open>
  Section 4.2 of the specification has the renderer split its input "on whitespace
  boundaries" and emit cumulative prefixes that rejoin the words with single spaces.
  \<open>spec_reveal\<close> follows these words, to be compared with \<open>typeAIResponse\<close>: every white space
  character of ASCII separates two words.
\<close>

definition is_space :: "char \<Rightarrow> bool" where
  "is_space c = (c \<in> {CHR 0x09, CHR 0x0A, CHR 0x0B, CHR 0x0C, CHR 0x0D, CHR 0x20})"

fun spec_split_whitespace :: "string \<Rightarrow> string list" where
  "spec_split_whitespace [] = [[]]"
| "spec_split_whitespace (c # cs) =
     (if is_space c then [] # spec_split_whitespace cs
      else (case spec_split_whitespace cs of
              [] \<Rightarrow> [[c]]
            | w # ws \<Rightarrow> (c # w) # ws))"

definition spec_reveal :: "string \<Rightarrow> string list" where
  "spec_reveal text = map (join '' '') (tl (prefixes (spec_split_whitespace text)))"

section \<open>The text of a stream\<close>



section \<open>Lines and chunks\<close>

lemma split_on_not_Nil: "split_on sep s \<noteq> []"
  by (induction s) (auto split: list.splits)

lemma split_on_append: "split_on sep (a @ sep # b) = split_on sep a @ split_on sep b"
proof (induction a)
  case Nil
  show ?case by simp
next
  case (Cons c a)
  obtain w ws where "split_on sep a = w # ws"
    using split_on_not_Nil [of sep a] by (cases "split_on sep a") auto
  with Cons show ?case by simp
qed

lemma split_on_no_sep: "sep \<notin> set s \<Longrightarrow> split_on sep s = [s]"
  by (induction s) auto

lemma process_line_data:
  "process_line parse (''data: '' @ data) s =
     (if data = ''[DONE]'' then s
      else (case try_frame parse data s of Inr s' \<Rightarrow> s' | Inl e \<Rightarrow> catch_frame data s))"
  by (simp add: process_line_def startsWith_def)

lemma process_line_sentinel: "process_line parse ''data: [DONE]'' s = s"
  using process_line_data [of parse "''[DONE]''" s] by simp

lemma process_line_empty: "process_line parse [] s = s"
  by (simp add: process_line_def startsWith_def)

lemma process_chunk_append:
  "process_chunk parse (a @ CHR 0x0A # b) s = process_chunk parse b (process_chunk parse a s)"
  by (simp add: process_chunk_def split_on_append)

lemma process_chunk_one_line:
  "CHR 0x0A \<notin> set line \<Longrightarrow> process_chunk parse line s = process_line parse line s"
  by (simp add: process_chunk_def split_on_no_sep)

lemma process_chunk_empty: "process_chunk parse [] s = s"
  by (simp add: process_chunk_def process_line_empty)

lemma read_loop_fulfilled_done:
  "read_loop parse reads s = (s', Fulfilled u) \<Longrightarrow> \<exists>ms. (ms, Done) \<in> set reads"
  by (induction parse reads s rule: read_loop.induct) auto

lemma show_agentMessage_text: "agentMessage (show_agentMessage s) = agentMessage s"
  by (simp add: show_agentMessage_def addMessage_def split: option.splits)

lemma show_agentMessage_shows: "element_ok s \<Longrightarrow> shows_text (show_agentMessage s)"
  by (auto simp: show_agentMessage_def addMessage_def updateMessage_def element_ok_def
      shows_text_def split: option.splits)

section \<open>The sentinel\<close>

text \<open>
  C6. A line \<open>data: [DONE]\<close> changes nothing and does not end the reading: the lines after it
  in the same chunk are processed as if it were not there, a read that brings only the
  sentinel is followed by the next read, and the loop ends normally only at a read that
  reports \<open>done\<close>.
\<close>

theorem sentinel_does_not_end_the_read_loop:
  "process_line parse ''data: [DONE]'' s = s
   \<and> process_chunk parse (before @ ''\<newline>'' @ ''data: [DONE]'' @ ''\<newline>'' @ after) s
       = process_chunk parse after (process_chunk parse before s)
   \<and> read_loop parse ((ms, Chunk ''data: [DONE]\<newline>'') # reads) s = read_loop parse reads s
   \<and> (\<forall>s' u. read_loop parse reads s = (s', Fulfilled u) \<longrightarrow> (\<exists>ms. (ms, Done) \<in> set reads))"
proof -
  have nl: "CHR 0x0A \<notin> set ''data: [DONE]''" by simp
  have one: "process_chunk parse ''data: [DONE]'' s0 = s0" for s0
    using process_chunk_one_line [OF nl, of parse s0] by (simp add: process_line_sentinel)
  have a: "process_chunk parse (before @ ''\<newline>'' @ ''data: [DONE]'' @ ''\<newline>'' @ after) s
       = process_chunk parse after (process_chunk parse before s)"
    using process_chunk_append [of parse before "''data: [DONE]'' @ ''\<newline>'' @ after" s]
          process_chunk_append [of parse "''data: [DONE]''" after "process_chunk parse before s"]
    by (simp add: one)
  have b: "read_loop parse ((ms, Chunk ''data: [DONE]\<newline>'') # reads) s = read_loop parse reads s"
    using process_chunk_append [of parse "''data: [DONE]''" "[]" s]
    by (simp add: one process_chunk_empty)
  show ?thesis
    using a b read_loop_fulfilled_done [of parse reads s] by (simp add: process_line_sentinel)
qed

text \<open>
  A run: the sentinel arrives first, a frame with the content \<open>X\<close> after it in the next read,
  then the stream ends. The frame is processed.
\<close>

theorem sentinel_then_frame_run:
  \<open>read_loop JSON_parse
      [(0, Chunk ''data: [DONE]\<newline>''), (0, Chunk ''data: {"content":"X"}\<newline>''), (0, Done)]
      (fresh_stream fresh_chat)
    = read_loop JSON_parse [(0, Chunk ''data: {"content":"X"}\<newline>''), (0, Done)]
        (fresh_stream fresh_chat)
   \<and> agentMessage (fst (read_loop JSON_parse
        [(0, Chunk ''data: [DONE]\<newline>''), (0, Chunk ''data: {"content":"X"}\<newline>''), (0, Done)]
        (fresh_stream fresh_chat))) = ''X''
   \<and> snd (read_loop JSON_parse
        [(0, Chunk ''data: [DONE]\<newline>''), (0, Chunk ''data: {"content":"X"}\<newline>''), (0, Done)]
        (fresh_stream fresh_chat)) = Fulfilled ()
   \<and> (0, Done) \<in> set [(0 :: nat, Chunk ''data: {"content":"X"}\<newline>''), (0, Done)]\<close>
proof -
  have run: \<open>read_loop JSON_parse [(0, Chunk ''data: {"content":"X"}\<newline>''), (0, Done)]
      (fresh_stream fresh_chat)
    = (\<lparr>agentMessage = ''X'', messageElement = Some 0,
        page = fresh_chat\<lparr>chatMessages :=
          [\<lparr>msg_sender = Agent, msg_content = ''X'', msg_images = []\<rparr>]\<rparr>\<rparr>, Fulfilled ())\<close>
    by code_simp
  have skip: \<open>read_loop JSON_parse
      [(0, Chunk ''data: [DONE]\<newline>''), (0, Chunk ''data: {"content":"X"}\<newline>''), (0, Done)]
      (fresh_stream fresh_chat)
    = read_loop JSON_parse [(0, Chunk ''data: {"content":"X"}\<newline>''), (0, Done)]
        (fresh_stream fresh_chat)\<close>
    using sentinel_does_not_end_the_read_loop
      [of JSON_parse "fresh_stream fresh_chat" "[]" "[]" 0
          \<open>[(0, Chunk ''data: {"content":"X"}\<newline>''), (0, Done)]\<close>]
    by blast
  show ?thesis
    unfolding skip run by simp
qed

section \<open>Payloads that are not JSON\<close>

text \<open>
  C4. A line with the prefix \<open>data: \<close> whose payload (not the sentinel, which is never
  parsed) makes \<open>JSON.parse\<close> throw: the \<open>catch\<close> block handles the error, so the line is
  processed to the end; the whole payload is appended to the accumulated text, and the
  agent's message element displays the result.
\<close>

theorem unparsable_payload_is_appended:
  assumes "parse data = None" and "data \<noteq> ''[DONE]''" and "element_ok s"
  shows "try_frame parse data s = Inl SyntaxError
     \<and> process_line parse (''data: '' @ data) s = catch_frame data s
     \<and> agentMessage (process_line parse (''data: '' @ data) s) = agentMessage s @ data
     \<and> shows_text (process_line parse (''data: '' @ data) s)"
proof -
  have t: "try_frame parse data s = Inl SyntaxError"
    using assms(1) by (simp add: try_frame_def)
  have p: "process_line parse (''data: '' @ data) s = catch_frame data s"
    using assms(2) t process_line_data [of parse data s] by simp
  have ok: "element_ok (s\<lparr>agentMessage := agentMessage s @ data\<rparr>)"
    using assms(3) by (simp add: element_ok_def split: option.splits)
  have a: "agentMessage (catch_frame data s) = agentMessage s @ data"
    by (simp add: catch_frame_def show_agentMessage_text)
  have r: "shows_text (catch_frame data s)"
    unfolding catch_frame_def by (rule show_agentMessage_shows [OF ok])
  show ?thesis using t p a r by simp
qed

text \<open>The frame \<open>data: not-json\<close>, first of its stream: \<open>not-json\<close> is appended and displayed.\<close>

theorem not_json_frame_run:
  "JSON_parse ''not-json'' = None
   \<and> agentMessage (process_line JSON_parse ''data: not-json'' (fresh_stream fresh_chat)) = ''not-json''
   \<and> shows_text (process_line JSON_parse ''data: not-json'' (fresh_stream fresh_chat))
   \<and> chatMessages (page (process_line JSON_parse ''data: not-json'' (fresh_stream fresh_chat)))
       = [\<lparr>msg_sender = Agent, msg_content = ''not-json'', msg_images = []\<rparr>]"
proof -
  have n: "JSON_parse ''not-json'' = None" by code_simp
  have d: "''not-json'' \<noteq> ''[DONE]''" by simp
  have ok: "element_ok (fresh_stream fresh_chat)"
    by (simp add: element_ok_def fresh_stream_def)
  have c: "chatMessages (page (catch_frame ''not-json'' (fresh_stream fresh_chat)))
       = [\<lparr>msg_sender = Agent, msg_content = ''not-json'', msg_images = []\<rparr>]"
    by (simp add: catch_frame_def show_agentMessage_def addMessage_def fresh_stream_def
        fresh_chat_def)
  note T = unparsable_payload_is_appended
    [of JSON_parse "''not-json''" "fresh_stream fresh_chat", OF n d ok]
  have a0: "agentMessage (fresh_stream fresh_chat) = []"
    by (simp add: fresh_stream_def)
  show ?thesis
    using T n c by (elim conjE) (simp add: a0)
qed

section \<open>Frames without content\<close>

text \<open>
  C10. A line with the prefix \<open>data: \<close> whose payload parses to a JSON object with no truthy
  \<open>content\<close> member (none at all, or an empty string, \<open>false\<close>, \<open>null\<close> or zero): the \<open>try\<close>
  block runs without an error, nothing is appended to the accumulated text, and the only
  effect is that the agent's message element is created or rewritten with the text
  accumulated so far.
\<close>

theorem frame_without_content_appends_nothing:
  assumes "parse data = Some (JObject members)"
    and "\<not> truthy (map_of (rev members) ''content'')"
  shows "try_frame parse data s = Inr (show_agentMessage s)
     \<and> process_line parse (''data: '' @ data) s = (if data = ''[DONE]'' then s else show_agentMessage s)
     \<and> agentMessage (process_line parse (''data: '' @ data) s) = agentMessage s"
proof -
  have c: "append_content (map_of (rev members) ''content'') (agentMessage s)
      = Some (agentMessage s)"
    using assms(2) by (cases "map_of (rev members) ''content''") auto
  have t: "try_frame parse data s = Inr (show_agentMessage s)"
    using assms(1) c by (simp add: try_frame_def)
  show ?thesis
    using t process_line_data [of parse data s] by (simp add: show_agentMessage_text)
qed

text \<open>
  The frames \<open>data: {"done":true}\<close> and \<open>data: {"content":""}\<close> after the text \<open>A\<close> has been
  accumulated and displayed: the text stays \<open>A\<close>.
\<close>

theorem frames_without_content_run:
  \<open>JSON_parse ''{"done":true}'' = Some (JObject [(''done'', JBool True)])
   \<and> JSON_parse ''{"content":""}'' = Some (JObject [(''content'', JString [])])
   \<and> agentMessage (process_line JSON_parse ''data: {"done":true}''
        (process_line JSON_parse ''data: {"content":"A"}'' (fresh_stream fresh_chat))) = ''A''
   \<and> agentMessage (process_line JSON_parse ''data: {"content":""}''
        (process_line JSON_parse ''data: {"content":"A"}'' (fresh_stream fresh_chat))) = ''A''\<close>
proof -
  have p1: \<open>JSON_parse ''{"done":true}'' = Some (JObject [(''done'', JBool True)])\<close>
    by code_simp
  have p2: \<open>JSON_parse ''{"content":""}'' = Some (JObject [(''content'', JString [])])\<close>
    by code_simp
  have a: \<open>agentMessage (process_line JSON_parse ''data: {"content":"A"}''
      (fresh_stream fresh_chat)) = ''A''\<close>
    by code_simp
  have f1: "\<not> truthy (map_of (rev [(''done'', JBool True)]) ''content'')" by simp
  have f2: "\<not> truthy (map_of (rev [(''content'', JString [])]) ''content'')" by simp
  note T1 = frame_without_content_appends_nothing
    [of JSON_parse \<open>''{"done":true}''\<close> "[(''done'', JBool True)]"
        \<open>process_line JSON_parse ''data: {"content":"A"}'' (fresh_stream fresh_chat)\<close>, OF p1 f1]
  note T2 = frame_without_content_appends_nothing
    [of JSON_parse \<open>''{"content":""}''\<close> "[(''content'', JString [])]"
        \<open>process_line JSON_parse ''data: {"content":"A"}'' (fresh_stream fresh_chat)\<close>, OF p2 f2]
  show ?thesis
    using T1 T2 p1 p2 a by (elim conjE) simp
qed

section \<open>The accumulated text\<close>















section \<open>Lines cut by a read boundary\<close>

lemma process_chunk_newline_end:
  "process_chunk parse (c @ ''\<newline>'') s = process_chunk parse c s"
  using process_chunk_append [of parse c "[]" s] by (simp add: process_chunk_empty)

lemma process_chunks_whole_lines:
  assumes "\<forall>c \<in> set chunks. \<exists>c'. c = c' @ ''\<newline>''"
  shows "process_chunk parse (concat chunks @ rest) s
     = process_chunk parse rest (foldl (\<lambda>s c. process_chunk parse c s) s chunks)"
  using assms
proof (induction chunks arbitrary: s)
  case Nil
  show ?case by simp
next
  case (Cons c chunks)
  then obtain c' where c: "c = c' @ ''\<newline>''" by auto
  have "process_chunk parse (concat (c # chunks) @ rest) s
      = process_chunk parse (concat chunks @ rest) (process_chunk parse c' s)"
    using process_chunk_append [of parse c' "concat chunks @ rest" s] by (simp add: c)
  also have "\<dots> = process_chunk parse rest
      (foldl (\<lambda>s c. process_chunk parse c s) (process_chunk parse c' s) chunks)"
    using Cons by simp
  finally show ?case
    by (simp add: c process_chunk_newline_end)
qed

lemma read_loop_chunks:
  "map snd reads = map Chunk chunks \<Longrightarrow>
   read_loop parse (reads @ rest) s
     = read_loop parse rest (foldl (\<lambda>s c. process_chunk parse c s) s chunks)"
proof (induction chunks arbitrary: reads s)
  case Nil
  then show ?case by simp
next
  case (Cons c chunks)
  then obtain ms reads' where r: "reads = (ms, Chunk c) # reads'" and
    r': "map snd reads' = map Chunk chunks"
    by (cases reads) auto
  show ?case
    using Cons.IH [OF r'] by (simp add: r)
qed

text \<open>
  C2, as the code has it. Each read is split into lines on its own, and no partial trailing
  line is kept for the next read. When every read ends with a newline, the reads are
  processed as one read of their concatenation would be. When a line is cut by the
  boundary between two reads, the part before the cut and the part after it are processed
  as two lines, where one read would process them as one.
\<close>

theorem reads_are_split_on_their_own:
  "(map snd reads = map Chunk chunks \<and> (\<forall>c \<in> set chunks. \<exists>c'. c = c' @ ''\<newline>'') \<longrightarrow>
      read_loop parse (reads @ rest) s = read_loop parse ((ms, Chunk (concat chunks)) # rest) s)
   \<and> (CHR 0x0A \<notin> set x \<and> CHR 0x0A \<notin> set y \<longrightarrow>
      read_loop parse ((m1, Chunk x) # (m2, Chunk (y @ ''\<newline>'')) # rest) s
        = read_loop parse rest (process_line parse y (process_line parse x s))
      \<and> read_loop parse ((m1, Chunk (x @ y @ ''\<newline>'')) # rest) s
        = read_loop parse rest (process_line parse (x @ y) s))"
proof (intro conjI impI)
  assume a: "map snd reads = map Chunk chunks \<and> (\<forall>c \<in> set chunks. \<exists>c'. c = c' @ ''\<newline>'')"
  have "process_chunk parse (concat chunks @ []) s
      = process_chunk parse [] (foldl (\<lambda>s c. process_chunk parse c s) s chunks)"
    using a by (intro process_chunks_whole_lines) simp
  then show "read_loop parse (reads @ rest) s
      = read_loop parse ((ms, Chunk (concat chunks)) # rest) s"
    using a read_loop_chunks [of reads chunks parse rest s]
    by (simp add: process_chunk_empty)
next
  assume n: "CHR 0x0A \<notin> set x \<and> CHR 0x0A \<notin> set y"
  show "read_loop parse ((m1, Chunk x) # (m2, Chunk (y @ ''\<newline>'')) # rest) s
      = read_loop parse rest (process_line parse y (process_line parse x s))"
    using n by (simp add: process_chunk_newline_end process_chunk_one_line)
next
  assume n: "CHR 0x0A \<notin> set x \<and> CHR 0x0A \<notin> set y"
  then have xy: "CHR 0x0A \<notin> set (x @ y)" by simp
  show "read_loop parse ((m1, Chunk (x @ y @ ''\<newline>'')) # rest) s
      = read_loop parse rest (process_line parse (x @ y) s)"
    using process_chunk_newline_end [of parse "x @ y" s] process_chunk_one_line [OF xy, of parse s]
    by simp
qed

text \<open>
  Two frames that arrive whole in two reads give the text of one read of both. The frame
  \<open>data: {"content":"hi"}\<close> cut after \<open>data: {"cont\<close> is processed as the two lines
  \<open>data: {"cont\<close> and \<open>ent":"hi"}\<close>.
\<close>

theorem whole_and_cut_lines_run:
  \<open>read_loop JSON_parse
      ([(5, Chunk ''data: {"content":"h"}\<newline>''), (7, Chunk ''data: {"content":"i"}\<newline>'')] @ [(0, Done)])
      (fresh_stream fresh_chat)
    = read_loop JSON_parse
        ((0, Chunk (concat [''data: {"content":"h"}\<newline>'', ''data: {"content":"i"}\<newline>''])) # [(0, Done)])
        (fresh_stream fresh_chat)
   \<and> agentMessage (fst (read_loop JSON_parse
        ((0, Chunk (concat [''data: {"content":"h"}\<newline>'', ''data: {"content":"i"}\<newline>''])) # [(0, Done)])
        (fresh_stream fresh_chat))) = ''hi''
   \<and> read_loop JSON_parse
        ((0, Chunk ''data: {"cont'') # (0, Chunk (''ent":"hi"}'' @ ''\<newline>'')) # [(0, Done)])
        (fresh_stream fresh_chat)
      = read_loop JSON_parse [(0, Done)]
          (process_line JSON_parse ''ent":"hi"}''
            (process_line JSON_parse ''data: {"cont'' (fresh_stream fresh_chat)))\<close>
proof -
  have one: \<open>agentMessage (fst (read_loop JSON_parse
        ((0, Chunk (concat [''data: {"content":"h"}\<newline>'', ''data: {"content":"i"}\<newline>''])) # [(0, Done)])
        (fresh_stream fresh_chat))) = ''hi''\<close>
    by code_simp
  have w: \<open>map snd [(5 :: nat, Chunk ''data: {"content":"h"}\<newline>''), (7, Chunk ''data: {"content":"i"}\<newline>'')]
      = map Chunk [''data: {"content":"h"}\<newline>'', ''data: {"content":"i"}\<newline>'']
     \<and> (\<forall>c \<in> set [''data: {"content":"h"}\<newline>'', ''data: {"content":"i"}\<newline>'']. \<exists>c'. c = c' @ ''\<newline>'')\<close>
    by simp
  have n: \<open>CHR 0x0A \<notin> set ''data: {"cont'' \<and> CHR 0x0A \<notin> set ''ent":"hi"}''\<close>
    by simp
  note T = reads_are_split_on_their_own
    [of \<open>[(5, Chunk ''data: {"content":"h"}\<newline>''), (7, Chunk ''data: {"content":"i"}\<newline>'')]\<close>
        \<open>[''data: {"content":"h"}\<newline>'', ''data: {"content":"i"}\<newline>'']\<close>
        JSON_parse "[(0, Done)]" "fresh_stream fresh_chat" 0
        \<open>''data: {"cont''\<close> \<open>''ent":"hi"}''\<close> 0 0]
  from T w have a: \<open>read_loop JSON_parse
      ([(5, Chunk ''data: {"content":"h"}\<newline>''), (7, Chunk ''data: {"content":"i"}\<newline>'')] @ [(0, Done)])
      (fresh_stream fresh_chat)
    = read_loop JSON_parse
        ((0, Chunk (concat [''data: {"content":"h"}\<newline>'', ''data: {"content":"i"}\<newline>''])) # [(0, Done)])
        (fresh_stream fresh_chat)\<close>
    by blast
  from T n have b: \<open>read_loop JSON_parse
        ((0, Chunk ''data: {"cont'') # (0, Chunk (''ent":"hi"}'' @ ''\<newline>'')) # [(0, Done)])
        (fresh_stream fresh_chat)
      = read_loop JSON_parse [(0, Done)]
          (process_line JSON_parse ''ent":"hi"}''
            (process_line JSON_parse ''data: {"cont'' (fresh_stream fresh_chat)))\<close>
    by blast
  show ?thesis
    using a one b by (intro conjI)
qed

text \<open>
  The claim fails on the frame of the specification: delivered as \<open>data: {"cont\<close> and then
  \<open>ent":"hi"}\<close> with its newline, the accumulated and displayed text is \<open>{"cont\<close>; delivered
  in one read it is \<open>hi\<close>.
\<close>

theorem cut_frame_is_not_reassembled:
  \<open>agentMessage (fst (read_loop JSON_parse
      [(0, Chunk ''data: {"cont''), (0, Chunk ''ent":"hi"}\<newline>''), (0, Done)]
      (fresh_stream fresh_chat))) = ''{"cont''
   \<and> map msg_content (chatMessages (page (fst (read_loop JSON_parse
      [(0, Chunk ''data: {"cont''), (0, Chunk ''ent":"hi"}\<newline>''), (0, Done)]
      (fresh_stream fresh_chat))))) = [''{"cont'']
   \<and> agentMessage (fst (read_loop JSON_parse
      [(0, Chunk ''data: {"content":"hi"}\<newline>''), (0, Done)]
      (fresh_stream fresh_chat))) = ''hi''\<close>
  by code_simp

section \<open>Silence on the stream\<close>

lemma read_loop_times:
  "map snd reads = map snd reads' \<Longrightarrow> read_loop parse reads s = read_loop parse reads' s"
proof (induction parse reads s arbitrary: reads' rule: read_loop.induct)
  case (1 parse s)
  then show ?case by simp
next
  case (2 parse ms evs s)
  then show ?case by (cases reads') auto
next
  case (3 parse ms evs s)
  then show ?case by (cases reads') auto
next
  case (4 parse ms chunk evs s)
  then obtain ms' evs' where r: "reads' = (ms', Chunk chunk) # evs'" and
    e: "map snd evs = map snd evs'"
    by (cases reads') auto
  show ?case
    using "4.IH" [OF e] by (simp add: r)
qed

lemma read_loop_only_chunks:
  "\<forall>ev \<in> set reads. \<exists>chunk. snd ev = Chunk chunk \<Longrightarrow> snd (read_loop parse reads s) = Pending"
  by (induction parse reads s rule: read_loop.induct) auto

lemma show_agentMessage_indicator:
  "typingIndicator (page (show_agentMessage s)) = typingIndicator (page s)"
  by (simp add: show_agentMessage_def addMessage_def updateMessage_def split: option.splits)

lemma process_line_indicator:
  "typingIndicator (page (process_line parse line s)) = typingIndicator (page s)"
  by (auto simp: process_line_def try_frame_def catch_frame_def show_agentMessage_indicator
      Let_def split: option.splits sum.splits)

lemma process_lines_indicator:
  "typingIndicator (page (foldl (\<lambda>s line. process_line parse line s) s lines))
     = typingIndicator (page s)"
  by (induction lines arbitrary: s) (simp_all add: process_line_indicator)

lemma read_loop_indicator:
  "typingIndicator (page (fst (read_loop parse reads s))) = typingIndicator (page s)"
  by (induction parse reads s rule: read_loop.induct)
    (simp_all add: process_chunk_def process_lines_indicator)

lemma hideTypingIndicator_hidden: "\<not> typingIndicator (hideTypingIndicator c)"
  by (simp add: hideTypingIndicator_def)

lemma sendToAPI_body:
  "sendToAPI parse (Response True status (Some reads)) message images c
     = (case read_loop parse reads
               \<lparr>agentMessage = [], messageElement = None,
                page = hideTypingIndicator
                  (c\<lparr>requests := requests c @ [\<lparr>req_message = message, req_images = images\<rparr>]\<rparr>)\<rparr> of
          (s, Fulfilled u) \<Rightarrow>
            (if soundNotifications (page s) then playNotificationSound (page s) else page s,
             Fulfilled ())
        | (s, out) \<Rightarrow> (page s, out))"
  by (simp add: sendToAPI_def)

lemma sendToAPI_body_indicator:
  "\<not> typingIndicator (fst (sendToAPI parse (Response True status (Some reads)) message images c))"
proof -
  define s0 where "s0 = \<lparr>agentMessage = [], messageElement = None,
       page = hideTypingIndicator
         (c\<lparr>requests := requests c @ [\<lparr>req_message = message, req_images = images\<rparr>]\<rparr>)\<rparr>"
  obtain s out where r: "read_loop parse reads s0 = (s, out)"
    by (cases "read_loop parse reads s0")
  have p0: "\<not> typingIndicator (page s0)"
    by (simp add: s0_def hideTypingIndicator_hidden)
  have "typingIndicator (page (fst (read_loop parse reads s0))) = typingIndicator (page s0)"
    by (rule read_loop_indicator)
  then have h: "\<not> typingIndicator (page s)"
    by (simp add: r p0)
  show ?thesis
    unfolding sendToAPI_body s0_def [symmetric] r
    using h by (cases out) (simp_all add: playNotificationSound_def)
qed

lemma sendToAPI_body_pending:
  assumes "\<forall>ev \<in> set reads. \<exists>chunk. snd ev = Chunk chunk"
  shows "snd (sendToAPI parse (Response True status (Some reads)) message images c) = Pending"
proof -
  define s0 where "s0 = \<lparr>agentMessage = [], messageElement = None,
       page = hideTypingIndicator
         (c\<lparr>requests := requests c @ [\<lparr>req_message = message, req_images = images\<rparr>]\<rparr>)\<rparr>"
  obtain s out where r: "read_loop parse reads s0 = (s, out)"
    by (cases "read_loop parse reads s0")
  have "out = Pending"
    using read_loop_only_chunks [OF assms, of parse s0] by (simp add: r)
  then show ?thesis
    unfolding sendToAPI_body s0_def [symmetric] r by simp
qed

text \<open>
  C3, as the code has it. \<open>sendToAPI\<close> sets no timer, and nothing in it reads a clock: how
  long the reads take has no effect on what it does. When the body delivers chunks and then
  never settles another read, the call stays pending: no failure is signalled and the call
  does not complete; the typing indicator was hidden when the response arrived.
\<close>

theorem no_timer_on_the_stream:
  "(map snd reads = map snd reads' \<longrightarrow>
      sendToAPI parse (Response ok status (Some reads)) message images c
        = sendToAPI parse (Response ok status (Some reads')) message images c)
   \<and> ((\<forall>ev \<in> set reads. \<exists>chunk. snd ev = Chunk chunk) \<longrightarrow>
      snd (sendToAPI parse (Response True status (Some reads)) message images c) = Pending
      \<and> \<not> typingIndicator (fst (sendToAPI parse (Response True status (Some reads)) message images c)))"
proof (intro conjI impI)
  assume "map snd reads = map snd reads'"
  then show "sendToAPI parse (Response ok status (Some reads)) message images c
      = sendToAPI parse (Response ok status (Some reads')) message images c"
    by (simp add: sendToAPI_def read_loop_times [of reads reads'] cong: if_cong)
next
  assume a: "\<forall>ev \<in> set reads. \<exists>chunk. snd ev = Chunk chunk"
  show "snd (sendToAPI parse (Response True status (Some reads)) message images c) = Pending"
    by (rule sendToAPI_body_pending [OF a])
next
  show "\<not> typingIndicator (fst (sendToAPI parse (Response True status (Some reads)) message images c))"
    by (rule sendToAPI_body_indicator)
qed

text \<open>
  A response whose first chunk takes 30 seconds and one whose chunk comes at once: the
  same result. A response whose body delivers one chunk and then nothing: pending.
\<close>

theorem slow_and_stalled_stream_run:
  \<open>sendToAPI JSON_parse
      (Response True 200 (Some [(30000, Chunk ''data: {"content":"A"}\<newline>''), (0, Done)]))
      ''hi'' [] fresh_chat
    = sendToAPI JSON_parse
        (Response True 200 (Some [(0, Chunk ''data: {"content":"A"}\<newline>''), (0, Done)]))
        ''hi'' [] fresh_chat
   \<and> snd (sendToAPI JSON_parse
        (Response True 200 (Some [(0, Chunk ''data: {"content":"A"}\<newline>'')])) ''hi'' [] fresh_chat)
      = Pending
   \<and> \<not> typingIndicator (fst (sendToAPI JSON_parse
        (Response True 200 (Some [(0, Chunk ''data: {"content":"A"}\<newline>'')])) ''hi'' [] fresh_chat))\<close>
proof -
  have t: \<open>map snd [(30000 :: nat, Chunk ''data: {"content":"A"}\<newline>''), (0, Done)]
      = map snd [(0 :: nat, Chunk ''data: {"content":"A"}\<newline>''), (0, Done)]\<close>
    by simp
  have c: \<open>\<forall>ev \<in> set [(0 :: nat, Chunk ''data: {"content":"A"}\<newline>'')]. \<exists>chunk. snd ev = Chunk chunk\<close>
    by simp
  from no_timer_on_the_stream
    [of \<open>[(30000, Chunk ''data: {"content":"A"}\<newline>''), (0, Done)]\<close>
        \<open>[(0, Chunk ''data: {"content":"A"}\<newline>''), (0, Done)]\<close>
        JSON_parse True 200 "''hi''" "[]" fresh_chat]
  have a: \<open>sendToAPI JSON_parse
      (Response True 200 (Some [(30000, Chunk ''data: {"content":"A"}\<newline>''), (0, Done)]))
      ''hi'' [] fresh_chat
    = sendToAPI JSON_parse
        (Response True 200 (Some [(0, Chunk ''data: {"content":"A"}\<newline>''), (0, Done)]))
        ''hi'' [] fresh_chat\<close>
    using t by blast
  from no_timer_on_the_stream
    [of \<open>[(0, Chunk ''data: {"content":"A"}\<newline>'')]\<close>
        \<open>[(0, Chunk ''data: {"content":"A"}\<newline>'')]\<close>
        JSON_parse True 200 "''hi''" "[]" fresh_chat]
  have b: \<open>snd (sendToAPI JSON_parse
        (Response True 200 (Some [(0, Chunk ''data: {"content":"A"}\<newline>'')])) ''hi'' [] fresh_chat)
      = Pending
   \<and> \<not> typingIndicator (fst (sendToAPI JSON_parse
        (Response True 200 (Some [(0, Chunk ''data: {"content":"A"}\<newline>'')])) ''hi'' [] fresh_chat))\<close>
    using c by blast
  show ?thesis
    using a b by (intro conjI) simp_all
qed

text \<open>Unfolding a concrete run.\<close>

lemmas run_defs =
  sendMessage_def sendToAPI_def process_chunk_def process_line_def startsWith_def try_frame_def
  catch_frame_def show_agentMessage_def addMessage_def updateMessage_def hideTypingIndicator_def
  showTypingIndicator_def handleInputChange_def renderAttachedImages_def uploadImages_def
  playNotificationSound_def fresh_chat_def fresh_stream_def typed_chat_def js_length_def

lemmas parse_defs =
  JSON_parse_def number_of_literal_def is_digit_def hex_val_def simple_escape_def

lemma trim_hi: "trim ''hi'' = ''hi''"
  by code_simp

text \<open>
  The claim fails where a read takes 30 seconds and the stream then goes on: the call is
  fulfilled, with the text displayed and no error. With no body bytes at all it is either
  pending for ever (no read settles), or fulfilled with nothing displayed (the stream ends
  after 30 seconds); a failure is signalled in neither case.
\<close>

theorem silence_raises_no_timeout:
  \<open>snd (sendToAPI JSON_parse
      (Response True 200 (Some [(30000, Chunk ''data: {"content":"A"}\<newline>''), (0, Done)]))
      ''hi'' [] fresh_chat) = Fulfilled ()
   \<and> map msg_content (chatMessages (fst (sendToAPI JSON_parse
      (Response True 200 (Some [(30000, Chunk ''data: {"content":"A"}\<newline>''), (0, Done)]))
      ''hi'' [] fresh_chat))) = [''A'']
   \<and> snd (sendToAPI JSON_parse (Response True 200 (Some [])) ''hi'' [] fresh_chat) = Pending
   \<and> sendToAPI JSON_parse (Response True 200 (Some [(30000, Done)])) ''hi'' [] fresh_chat
      = (fresh_chat\<lparr>requests := [\<lparr>req_message = ''hi'', req_images = []\<rparr>]\<rparr>, Fulfilled ())
   \<and> sendMessage JSON_parse (Response True 200 (Some [])) (typed_chat ''hi'')
      = (fresh_chat\<lparr>chatMessages := [\<lparr>msg_sender = User, msg_content = ''hi'', msg_images = []\<rparr>],
           requests := [\<lparr>req_message = ''hi'', req_images = []\<rparr>]\<rparr>, Pending)\<close>
  by (simp add: run_defs parse_defs trim_hi Let_def)

section \<open>The typing renderer\<close>

lemma join_Cons_Cons: "join sep ((c # w) # ws) = c # join sep (w # ws)"
  by (cases ws) simp_all

lemma join_Cons: "ws \<noteq> [] \<Longrightarrow> join sep (w # ws) = w @ sep @ join sep ws"
  by (cases ws) simp_all

lemma join_split_on: "join [sep] (split_on sep s) = s"
proof (induction s)
  case Nil
  show ?case by simp
next
  case (Cons c s)
  obtain w ws where sp: "split_on sep s = w # ws"
    using split_on_not_Nil [of sep s] by (cases "split_on sep s") auto
  show ?case
    using Cons by (simp add: sp join_Cons_Cons)
qed

lemma tl_prefixes_Cons: "tl (prefixes (w # ws)) = [w] # map (Cons w) (tl (prefixes ws))"
  by (cases ws) simp_all

lemma tl_prefixes_nonempty: "p \<in> set (tl (prefixes xs)) \<Longrightarrow> p \<noteq> []"
  by (cases xs) auto

lemma renders_type_words_Suc:
  "renders (snd (type_words lo hi el (Suc i) ws cur d))
     = map (\<lambda>p. cur @ '' '' @ join '' '' p) (tl (prefixes ws))"
proof (induction ws arbitrary: i cur d)
  case Nil
  show ?case by simp
next
  case (Cons w ws)
  have c: "map (\<lambda>p. cur @ '' '' @ join '' '' (w # p)) (tl (prefixes ws))
      = map (\<lambda>p. (cur @ '' '' @ w) @ '' '' @ join '' '' p) (tl (prefixes ws))"
    by (rule map_cong [OF refl]) (simp add: join_Cons tl_prefixes_nonempty)
  have "renders (snd (type_words lo hi el (Suc i) (w # ws) cur d))
      = (cur @ '' '' @ w) # renders (snd (type_words lo hi el (Suc (Suc i)) ws (cur @ '' '' @ w)
          (set_bubble el (cur @ '' '' @ w) d)))"
    by (simp add: split_beta Let_def)
  also have "\<dots> = (cur @ '' '' @ w)
      # map (\<lambda>p. (cur @ '' '' @ w) @ '' '' @ join '' '' p) (tl (prefixes ws))"
    by (simp only: Cons.IH)
  also have "\<dots> = map (\<lambda>p. cur @ '' '' @ join '' '' p) (tl (prefixes (w # ws)))"
    unfolding tl_prefixes_Cons c [symmetric] by (simp add: comp_def)
  finally show ?case .
qed

lemma renders_type_words:
  "renders (snd (type_words lo hi el 0 ws [] d)) = map (join '' '') (tl (prefixes ws))"
proof (cases ws)
  case Nil
  then show ?thesis by simp
next
  case (Cons w ws')
  have c: "map (\<lambda>p. join '' '' (w # p)) (tl (prefixes ws'))
      = map (\<lambda>p. w @ '' '' @ join '' '' p) (tl (prefixes ws'))"
    by (rule map_cong [OF refl]) (simp add: join_Cons tl_prefixes_nonempty)
  have "renders (snd (type_words lo hi el 0 (w # ws') [] d))
      = w # renders (snd (type_words lo hi el (Suc 0) ws' w (set_bubble el w d)))"
    by (simp add: split_beta Let_def)
  also have "\<dots> = w # map (\<lambda>p. w @ '' '' @ join '' '' p) (tl (prefixes ws'))"
    by (simp only: renders_type_words_Suc)
  also have "\<dots> = map (join '' '') (tl (prefixes (w # ws')))"
    unfolding tl_prefixes_Cons c [symmetric] by (simp add: comp_def)
  finally show ?thesis by (simp only: Cons)
qed

lemma renders_prefix_cur:
  "t \<in> set (renders (snd (type_words lo hi el i ws cur d))) \<Longrightarrow> prefix cur t"
proof (induction ws arbitrary: i cur d)
  case Nil
  then show ?case by simp
next
  case (Cons w ws)
  let ?cur = "cur @ (if 0 < i then '' '' else []) @ w"
  from Cons.prems have "t = ?cur \<or>
      t \<in> set (renders (snd (type_words lo hi el (Suc i) ws ?cur (set_bubble el ?cur d))))"
    by (simp add: split_beta Let_def)
  then show ?case
  proof
    assume "t = ?cur"
    then show ?thesis by simp
  next
    assume "t \<in> set (renders (snd (type_words lo hi el (Suc i) ws ?cur (set_bubble el ?cur d))))"
    then have "prefix ?cur t" by (rule Cons.IH)
    then show ?thesis by (auto simp: prefix_def)
  qed
qed

lemma renders_sorted:
  "sorted_wrt prefix (renders (snd (type_words lo hi el i ws cur d)))"
proof (induction ws arbitrary: i cur d)
  case Nil
  show ?case by simp
next
  case (Cons w ws)
  show ?case
    using Cons renders_prefix_cur
    by (simp add: split_beta Let_def)
qed

lemma last_tl_prefixes: "ws \<noteq> [] \<Longrightarrow> last (tl (prefixes ws)) = ws"
  by (cases ws) (simp_all add: last_map)


lemma renders_nonempty: "ws \<noteq> [] \<Longrightarrow> renders (snd (type_words lo hi el i ws cur d)) \<noteq> []"
  by (cases ws) (simp_all add: split_beta Let_def)

lemma set_bubble_bubbles:
  "bubbles (set_bubble el t d) = (bubbles d)[el := (fst (bubbles d ! el), t)]"
  by (simp add: set_bubble_def)

lemma type_words_bubbles:
  "el < length (bubbles d) \<Longrightarrow>
   bubbles (fst (type_words lo hi el i ws cur d))
     = (if ws = [] then bubbles d
        else (bubbles d)[el := (fst (bubbles d ! el),
                last (renders (snd (type_words lo hi el i ws cur d))))])"
proof (induction ws arbitrary: i cur d)
  case Nil
  show ?case by simp
next
  case (Cons w ws)
  let ?cur = "cur @ (if 0 < i then '' '' else []) @ w"
  let ?d = "set_bubble el ?cur d"
  have l: "el < length (bubbles ?d)"
    using Cons.prems by (simp add: set_bubble_bubbles)
  have f: "fst (bubbles ?d ! el) = fst (bubbles d ! el)"
    using Cons.prems by (simp add: set_bubble_bubbles)
  show ?case
  proof (cases "ws = []")
    case True
    then show ?thesis by (simp add: set_bubble_bubbles Let_def)
  next
    case False
    have "bubbles (fst (type_words lo hi el i (w # ws) cur d))
        = bubbles (fst (type_words lo hi el (Suc i) ws ?cur ?d))"
      by (simp add: split_beta Let_def)
    also have "\<dots> = (bubbles ?d)[el := (fst (bubbles ?d ! el),
        last (renders (snd (type_words lo hi el (Suc i) ws ?cur ?d))))]"
      using Cons.IH [OF l, of "Suc i" ?cur] False by simp
    also have "\<dots> = (bubbles d)[el := (fst (bubbles d ! el),
        last (renders (snd (type_words lo hi el (Suc i) ws ?cur ?d))))]"
      by (simp only: f) (simp add: set_bubble_bubbles)
    finally show ?thesis
      using renders_nonempty [OF False, of lo hi el "Suc i" ?cur ?d]
      by (simp add: split_beta Let_def)
  qed
qed

lemma type_words_other_fields:
  "typing_indicators (fst (type_words lo hi el i ws cur d)) = typing_indicators d
   \<and> aiThinking (fst (type_words lo hi el i ws cur d)) = aiThinking d
   \<and> posted (fst (type_words lo hi el i ws cur d)) = posted d
   \<and> chat_input (fst (type_words lo hi el i ws cur d)) = chat_input d"
  by (induction ws arbitrary: i cur d) (simp_all add: split_beta Let_def set_bubble_def)

lemma typeAIResponse_string:
  "typeAIResponse (JString s) d
     = (fst (type_words 50 150 (length (bubbles d)) 0 (split_on CHR '' '' s) []
              (d\<lparr>bubbles := bubbles d @ [(Agent, [])]\<rparr>)),
        snd (type_words 50 150 (length (bubbles d)) 0 (split_on CHR '' '' s) []
              (d\<lparr>bubbles := bubbles d @ [(Agent, [])]\<rparr>)),
        Fulfilled ())"
  by (simp add: typeAIResponse_def dash_addMessage_def split_beta)

lemma typeAIResponse_new_string:
  "typeAIResponse_new (JString s) d
     = (fst (type_words 30 80 (length (bubbles d)) 0 (split_on CHR '' '' s) []
              (d\<lparr>bubbles := bubbles d @ [(Agent, [])]\<rparr>)),
        Wait 100 100 # snd (type_words 30 80 (length (bubbles d)) 0 (split_on CHR '' '' s) []
              (d\<lparr>bubbles := bubbles d @ [(Agent, [])]\<rparr>)),
        Fulfilled ())"
  by (simp add: typeAIResponse_new_def dash_addMessage_def split_beta)

lemma reveal_texts:
  assumes "rs = map (join '' '') (tl (prefixes (split_on CHR '' '' text)))"
  shows "rs \<noteq> [] \<and> last rs = text"
proof -
  have ne: "split_on CHR '' '' text \<noteq> []" by (rule split_on_not_Nil)
  then have t: "tl (prefixes (split_on CHR '' '' text)) \<noteq> []"
    by (cases "split_on CHR '' '' text") simp_all
  have "last rs = join '' '' (last (tl (prefixes (split_on CHR '' '' text))))"
    using t by (simp add: assms last_map)
  also have "\<dots> = join '' '' (split_on CHR '' '' text)"
    by (simp only: last_tl_prefixes [OF ne])
  also have "\<dots> = text"
    using join_split_on [of "CHR '' ''" "text"] by simp
  finally show ?thesis using t by (simp add: assms)
qed

text \<open>
  C8, as the code has it. On the empty string \<open>split\<close> gives one word, the empty one: the
  renderer adds an empty agent bubble, puts the empty text into it once and awaits one
  delay after it (the script of \<open>dashboard-script-new.js\<close> also waits 100 ms first). So the
  sequence of partial renders has one element, and there is one delay between words.
\<close>

theorem typing_empty_string:
  "typeAIResponse (JString []) d
     = (d\<lparr>bubbles := bubbles d @ [(Agent, [])]\<rparr>, [Render [], Wait 50 150], Fulfilled ())
   \<and> typeAIResponse_new (JString []) d
     = (d\<lparr>bubbles := bubbles d @ [(Agent, [])]\<rparr>, [Wait 100 100, Render [], Wait 30 80],
        Fulfilled ())"
  by (simp add: typeAIResponse_def typeAIResponse_new_def dash_addMessage_def set_bubble_def)

text \<open>
  The claim fails on the fresh dashboard: the empty string is rendered once, a delay
  follows, and an empty bubble stays in the conversation.
\<close>

theorem empty_string_is_rendered_once:
  "fst (snd (typeAIResponse (JString []) fresh_dashboard)) = [Render [], Wait 50 150]
   \<and> renders (fst (snd (typeAIResponse (JString []) fresh_dashboard))) = [[]]
   \<and> bubbles (fst (typeAIResponse (JString []) fresh_dashboard)) = [(Agent, [])]"
  by (simp add: typeAIResponse_def dash_addMessage_def set_bubble_def fresh_dashboard_def)

text \<open>
  C9, as the code has it. The words are the pieces between single space characters
  (\<open>text.split(' ')\<close>: a tab or a newline separates nothing). The partial texts are the
  first \<open>k\<close> words joined by single spaces, for \<open>k\<close> from 1 to the number of words, in both
  scripts; each is a prefix of the next; there is at least one; the last is the whole text,
  which is also what splitting and rejoining gives and what the bubble shows at the end.
\<close>

theorem typing_reveals_space_separated_prefixes:
  "renders (fst (snd (typeAIResponse (JString text) d)))
     = map (join '' '') (tl (prefixes (split_on CHR '' '' text)))
   \<and> renders (fst (snd (typeAIResponse_new (JString text) d)))
     = map (join '' '') (tl (prefixes (split_on CHR '' '' text)))
   \<and> sorted_wrt prefix (renders (fst (snd (typeAIResponse (JString text) d))))
   \<and> renders (fst (snd (typeAIResponse (JString text) d))) \<noteq> []
   \<and> last (renders (fst (snd (typeAIResponse (JString text) d)))) = text
   \<and> join '' '' (split_on CHR '' '' text) = text
   \<and> bubbles (fst (typeAIResponse (JString text) d)) = bubbles d @ [(Agent, text)]
   \<and> bubbles (fst (typeAIResponse_new (JString text) d)) = bubbles d @ [(Agent, text)]"
proof -
  let ?ws = "split_on CHR '' '' text"
  let ?d1 = "d\<lparr>bubbles := bubbles d @ [(Agent, [])]\<rparr>"
  have ne: "?ws \<noteq> []" by (rule split_on_not_Nil)
  have r1: "renders (fst (snd (typeAIResponse (JString text) d)))
      = map (join '' '') (tl (prefixes ?ws))"
    by (simp add: typeAIResponse_string renders_type_words)
  have r2: "renders (fst (snd (typeAIResponse_new (JString text) d)))
      = map (join '' '') (tl (prefixes ?ws))"
    by (simp add: typeAIResponse_new_string renders_type_words)
  have s: "sorted_wrt prefix (renders (fst (snd (typeAIResponse (JString text) d))))"
    by (simp add: typeAIResponse_string renders_sorted)
  have l: "renders (fst (snd (typeAIResponse (JString text) d))) \<noteq> []
      \<and> last (renders (fst (snd (typeAIResponse (JString text) d)))) = text"
    by (rule reveal_texts [OF r1])
  have l2: "last (renders (fst (snd (typeAIResponse_new (JString text) d)))) = text"
    using reveal_texts [OF r2] by simp
  have j: "join '' '' ?ws = text"
    using join_split_on [of "CHR '' ''" "text"] by simp
  have el: "length (bubbles d) < length (bubbles ?d1)" by simp
  have b1: "bubbles (fst (typeAIResponse (JString text) d)) = bubbles d @ [(Agent, text)]"
    using type_words_bubbles [OF el, of 50 150 0 ?ws "[]"] ne l
    by (simp add: typeAIResponse_string)
  have b2: "bubbles (fst (typeAIResponse_new (JString text) d)) = bubbles d @ [(Agent, text)]"
    using type_words_bubbles [OF el, of 30 80 0 ?ws "[]"] ne l2
    by (simp add: typeAIResponse_new_string)
  show ?thesis
    using r1 r2 s l j b1 b2 by (intro conjI) simp_all
qed

text \<open>
  The claim fails on \<open>a\<close>, a tab, \<open>b\<close>: split on whitespace this is two words with the
  partial texts \<open>a\<close> and \<open>a b\<close>; the renderer emits one partial text, the whole input.
\<close>

theorem tab_separated_words_are_not_split:
  "renders (fst (snd (typeAIResponse (JString (''a'' @ [CHR 0x09] @ ''b'')) fresh_dashboard)))
     = [''a'' @ [CHR 0x09] @ ''b'']
   \<and> spec_reveal (''a'' @ [CHR 0x09] @ ''b'') = [''a'', ''a b'']"
  by (simp add: typeAIResponse_def dash_addMessage_def set_bubble_def fresh_dashboard_def
      spec_reveal_def is_space_def Let_def)

section \<open>Sending a message\<close>

lemma sendToAPI_fulfilled_indicator:
  assumes "sendToAPI parse fetched message images c = (c', Fulfilled u)"
  shows "\<not> typingIndicator c'"
proof (cases fetched)
  case FetchFailed
  with assms show ?thesis by (simp add: sendToAPI_def)
next
  case FetchPending
  with assms show ?thesis by (simp add: sendToAPI_def)
next
  case (Response ok status body)
  show ?thesis
  proof (cases "ok \<and> body \<noteq> None")
    case False
    with assms Response show ?thesis
      by (auto simp: sendToAPI_def Let_def split: if_splits option.splits)
  next
    case True
    then obtain reads where b: "ok" "body = Some reads" by auto
    show ?thesis
      using sendToAPI_body_indicator [of parse status reads message images c] assms
      by (simp add: Response b)
  qed
qed

lemma sendMessage_started:
  assumes "trim (input_value c) \<noteq> [] \<or> attachedImages c \<noteq> []"
  shows "sendMessage parse fetched c =
     (case sendToAPI parse fetched (trim (input_value c)) (uploadImages c)
             (showTypingIndicator (handleInputChange (renderAttachedImages
                ((fst (addMessage User (trim (input_value c)) (uploadImages c) c))
                   \<lparr>input_value := [], attachedImages := []\<rparr>)))) of
        (c6, Rejected error) \<Rightarrow>
          (fst (addMessage Agent chat_apology [] (hideTypingIndicator c6)), Fulfilled ())
      | (c6, out) \<Rightarrow> (c6, out))"
  using assms by (auto simp: sendMessage_def Let_def)

lemma sendMessage_indicator:
  assumes "trim (input_value c) \<noteq> [] \<or> attachedImages c \<noteq> []"
    and "snd (sendMessage parse fetched c) \<noteq> Pending"
  shows "\<not> typingIndicator (fst (sendMessage parse fetched c))
     \<and> snd (sendMessage parse fetched c) = Fulfilled ()"
proof -
  define c5 where "c5 = showTypingIndicator (handleInputChange (renderAttachedImages
      ((fst (addMessage User (trim (input_value c)) (uploadImages c) c))
         \<lparr>input_value := [], attachedImages := []\<rparr>)))"
  obtain c6 out where r:
    "sendToAPI parse fetched (trim (input_value c)) (uploadImages c) c5 = (c6, out)"
    by (cases "sendToAPI parse fetched (trim (input_value c)) (uploadImages c) c5")
  have s: "sendMessage parse fetched c =
     (case (c6, out) of
        (c6, Rejected error) \<Rightarrow>
          (fst (addMessage Agent chat_apology [] (hideTypingIndicator c6)), Fulfilled ())
      | (c6, out) \<Rightarrow> (c6, out))"
    unfolding sendMessage_started [OF assms(1)] c5_def [symmetric] r ..
  show ?thesis
  proof (cases out)
    case (Fulfilled u)
    then show ?thesis
      using sendToAPI_fulfilled_indicator [of parse fetched _ _ c5 c6 u] r by (simp add: s)
  next
    case (Rejected e)
    then show ?thesis
      by (simp add: s addMessage_def hideTypingIndicator_def)
  next
    case Pending
    then show ?thesis using assms(2) by (simp add: s)
  qed
qed

lemma typeAIResponse_other_fields:
  "typing_indicators (fst (typeAIResponse v d)) = typing_indicators d
   \<and> aiThinking (fst (typeAIResponse v d)) = aiThinking d"
  using type_words_other_fields
  by (cases v) (simp_all add: typeAIResponse_def dash_addMessage_def split_beta)

lemma typeAIResponse_new_other_fields:
  "typing_indicators (fst (typeAIResponse_new v d)) = typing_indicators d
   \<and> aiThinking (fst (typeAIResponse_new v d)) = aiThinking d"
  using type_words_other_fields
  by (cases v) (simp_all add: typeAIResponse_new_def dash_addMessage_def split_beta)

lemma callAI_other_fields:
  "typing_indicators (fst (callAI http message d)) = typing_indicators d
   \<and> aiThinking (fst (callAI http message d)) = aiThinking d"
  by (simp add: callAI_def Let_def split: http_result.splits json_body.splits)

lemma dash_sendMessage_with_indicator:
  assumes typer: "\<And>v d. typing_indicators (fst (typer v d)) = typing_indicators d
      \<and> aiThinking (fst (typer v d)) = aiThinking d"
    and started: "trim (chat_input d) \<noteq> [] \<or> attached d \<noteq> []"
    and one: "typing_indicators d \<le> 1"
    and settled: "snd (snd (dash_sendMessage_with typer http d)) \<noteq> Pending"
  shows "typing_indicators (fst (dash_sendMessage_with typer http d)) = 0
     \<and> \<not> aiThinking (fst (dash_sendMessage_with typer http d))
     \<and> snd (snd (dash_sendMessage_with typer http d)) = Fulfilled ()"
proof -
  define d3 where "d3 = dash_showTypingIndicator (showAIThinking (dash_handleInputChange
      ((fst (dash_addMessage User (trim (chat_input d)) d))\<lparr>chat_input := []\<rparr>)))"
  obtain d4 r where c: "callAI http (trim (chat_input d)) d3 = (d4, r)"
    by (cases "callAI http (trim (chat_input d)) d3")
  have s: "dash_sendMessage_with typer http d =
     (case (d4, r) of
        (d4, Fulfilled response) \<Rightarrow>
          (case typer response (dash_hideTypingIndicator (hideAIThinking d4)) of
             (d5, evs, Rejected error) \<Rightarrow> (dash_catch d5, evs, Fulfilled ())
           | (d5, evs, out) \<Rightarrow> (d5, evs, out))
      | (d4, Rejected error) \<Rightarrow> (dash_catch d4, [], Fulfilled ())
      | (d4, Pending) \<Rightarrow> (d4, [], Pending))"
    using started unfolding c [symmetric] d3_def
    by (auto simp: dash_sendMessage_with_def Let_def)
  have t3: "typing_indicators d3 = 1"
    using one
    by (simp add: d3_def dash_showTypingIndicator_def dash_hideTypingIndicator_def
        showAIThinking_def dash_handleInputChange_def dash_addMessage_def Let_def)
  have t4: "typing_indicators d4 = 1"
    using callAI_other_fields [of http "trim (chat_input d)" d3] by (simp add: c t3)
  have catch: "typing_indicators (dash_catch x) = typing_indicators x - 1
      \<and> \<not> aiThinking (dash_catch x)" for x
    by (simp add: dash_catch_def dash_addMessage_def dash_hideTypingIndicator_def
        hideAIThinking_def)
  show ?thesis
  proof (cases r)
    case (Fulfilled response)
    define d' where "d' = dash_hideTypingIndicator (hideAIThinking d4)"
    have h: "typing_indicators d' = 0 \<and> \<not> aiThinking d'"
      by (simp add: d'_def dash_hideTypingIndicator_def hideAIThinking_def t4)
    obtain d5 evs out where ty: "typer response d' = (d5, evs, out)"
      by (cases "typer response d'") auto
    have h5: "typing_indicators d5 = 0 \<and> \<not> aiThinking d5"
      using typer [of response d'] h by (simp add: ty)
    show ?thesis
      using h5 catch [of d5] settled
      by (cases out) (simp_all add: s Fulfilled d'_def [symmetric] ty)
  next
    case (Rejected e)
    then show ?thesis
      using catch [of d4] by (simp add: s t4)
  next
    case Pending
    then show ?thesis using settled by (simp add: s)
  qed
qed

lemma read_loop_ends: "snd (read_loop parse reads s) \<noteq> Pending \<longleftrightarrow> ends reads"
  by (induction parse reads s rule: read_loop.induct) simp_all

lemma sendToAPI_settles:
  "snd (sendToAPI parse fetched message images c) \<noteq> Pending \<longleftrightarrow> settles fetched"
proof (cases fetched)
  case FetchFailed
  then show ?thesis by (simp add: sendToAPI_def)
next
  case FetchPending
  then show ?thesis by (simp add: sendToAPI_def)
next
  case (Response ok status body)
  show ?thesis
  proof (cases body)
    case None
    then show ?thesis by (simp add: Response sendToAPI_def Let_def)
  next
    case (Some reads)
    show ?thesis
    proof (cases ok)
      case False
      then show ?thesis by (simp add: Response Some sendToAPI_def Let_def)
    next
      case True
      define s0 where "s0 = \<lparr>agentMessage = [], messageElement = None,
         page = hideTypingIndicator
           (c\<lparr>requests := requests c @ [\<lparr>req_message = message, req_images = images\<rparr>]\<rparr>)\<rparr>"
      obtain s out where r: "read_loop parse reads s0 = (s, out)"
        by (cases "read_loop parse reads s0")
      have "out \<noteq> Pending \<longleftrightarrow> ends reads"
        using read_loop_ends [of parse reads s0] by (simp add: r)
      moreover have okT: "ok = True" using True by simp
      ultimately show ?thesis
        unfolding Response Some okT sendToAPI_body s0_def [symmetric] r
        by (cases out) simp_all
    qed
  qed
qed

lemma sendMessage_settles:
  assumes "trim (input_value c) \<noteq> [] \<or> attachedImages c \<noteq> []"
  shows "snd (sendMessage parse fetched c) \<noteq> Pending \<longleftrightarrow> settles fetched"
proof -
  define c5 where "c5 = showTypingIndicator (handleInputChange (renderAttachedImages
      ((fst (addMessage User (trim (input_value c)) (uploadImages c) c))
         \<lparr>input_value := [], attachedImages := []\<rparr>)))"
  obtain c6 out where r:
    "sendToAPI parse fetched (trim (input_value c)) (uploadImages c) c5 = (c6, out)"
    by (cases "sendToAPI parse fetched (trim (input_value c)) (uploadImages c) c5")
  have "out \<noteq> Pending \<longleftrightarrow> settles fetched"
    using sendToAPI_settles [of parse fetched "trim (input_value c)" "uploadImages c" c5]
    by (simp add: r)
  then show ?thesis
    unfolding sendMessage_started [OF assms] c5_def [symmetric] r
    by (cases out) simp_all
qed

lemma sendMessage_shows_indicator:
  assumes "trim (input_value c) \<noteq> [] \<or> attachedImages c \<noteq> []"
  shows "typingIndicator (fst (sendMessage parse FetchPending c))"
  unfolding sendMessage_started [OF assms]
  by (simp add: sendToAPI_def showTypingIndicator_def)

lemma answer_of_settled: "answer_of data \<noteq> Pending"
  by (simp add: answer_of_def split: sum.splits option.splits)

lemma callAI_settles: "snd (callAI http message d) \<noteq> Pending \<longleftrightarrow> dash_settles http"
  by (cases http) (simp_all add: callAI_def Let_def answer_of_settled split: json_body.splits)

lemma typeAIResponse_settled: "snd (snd (typeAIResponse v d)) \<noteq> Pending"
  by (cases v) (simp_all add: typeAIResponse_def split_beta)

lemma typeAIResponse_new_settled: "snd (snd (typeAIResponse_new v d)) \<noteq> Pending"
  by (cases v) (simp_all add: typeAIResponse_new_def split_beta)

lemma dash_sendMessage_with_started:
  assumes "trim (chat_input d) \<noteq> [] \<or> attached d \<noteq> []"
  shows "dash_sendMessage_with typer http d =
     (case callAI http (trim (chat_input d))
             (dash_showTypingIndicator (showAIThinking (dash_handleInputChange
                ((fst (dash_addMessage User (trim (chat_input d)) d))\<lparr>chat_input := []\<rparr>)))) of
        (d4, Fulfilled response) \<Rightarrow>
          (case typer response (dash_hideTypingIndicator (hideAIThinking d4)) of
             (d5, evs, Rejected error) \<Rightarrow> (dash_catch d5, evs, Fulfilled ())
           | (d5, evs, out) \<Rightarrow> (d5, evs, out))
      | (d4, Rejected error) \<Rightarrow> (dash_catch d4, [], Fulfilled ())
      | (d4, Pending) \<Rightarrow> (d4, [], Pending))"
  using assms by (auto simp: dash_sendMessage_with_def Let_def)

lemma dash_sendMessage_with_settles:
  assumes typer: "\<And>v d. snd (snd (typer v d)) \<noteq> Pending"
    and started: "trim (chat_input d) \<noteq> [] \<or> attached d \<noteq> []"
  shows "snd (snd (dash_sendMessage_with typer http d)) \<noteq> Pending \<longleftrightarrow> dash_settles http"
proof -
  define d3 where "d3 = dash_showTypingIndicator (showAIThinking (dash_handleInputChange
      ((fst (dash_addMessage User (trim (chat_input d)) d))\<lparr>chat_input := []\<rparr>)))"
  obtain d4 r where c: "callAI http (trim (chat_input d)) d3 = (d4, r)"
    by (cases "callAI http (trim (chat_input d)) d3")
  have rs: "r \<noteq> Pending \<longleftrightarrow> dash_settles http"
    using callAI_settles [of http "trim (chat_input d)" d3] by (simp add: c)
  show ?thesis
  proof (cases r)
    case (Fulfilled response)
    obtain d5 evs out where ty:
      "typer response (dash_hideTypingIndicator (hideAIThinking d4)) = (d5, evs, out)"
      by (cases "typer response (dash_hideTypingIndicator (hideAIThinking d4))") auto
    have "out \<noteq> Pending"
      using typer [of response "dash_hideTypingIndicator (hideAIThinking d4)"] by (simp add: ty)
    then show ?thesis
      using rs unfolding dash_sendMessage_with_started [OF started] d3_def [symmetric] c
      by (cases out) (simp_all add: Fulfilled ty)
  next
    case (Rejected e)
    then show ?thesis
      using rs unfolding dash_sendMessage_with_started [OF started] d3_def [symmetric] c
      by simp
  next
    case Pending
    then show ?thesis
      using rs unfolding dash_sendMessage_with_started [OF started] d3_def [symmetric] c
      by simp
  qed
qed

lemma dash_sendMessage_with_shows_indicator:
  assumes "trim (chat_input d) \<noteq> [] \<or> attached d \<noteq> []" and "typing_indicators d \<le> 1"
  shows "typing_indicators (fst (dash_sendMessage_with typer HttpPending d)) = 1
     \<and> aiThinking (fst (dash_sendMessage_with typer HttpPending d))"
  unfolding dash_sendMessage_with_started [OF assms(1)]
  using assms(2)
  by (simp add: callAI_def dash_showTypingIndicator_def dash_hideTypingIndicator_def
      showAIThinking_def dash_handleInputChange_def dash_addMessage_def Let_def)

lemma dash_sendMessage_with_outcome:
  assumes fields: "\<And>v d. typing_indicators (fst (typer v d)) = typing_indicators d
      \<and> aiThinking (fst (typer v d)) = aiThinking d"
    and settled: "\<And>v d. snd (snd (typer v d)) \<noteq> Pending"
  shows "(trim (chat_input d) \<noteq> [] \<or> attached d \<noteq> []) \<and> typing_indicators d \<le> 1 \<longrightarrow>
      (dash_settles http \<longrightarrow>
         snd (snd (dash_sendMessage_with typer http d)) = Fulfilled ()
         \<and> typing_indicators (fst (dash_sendMessage_with typer http d)) = 0
         \<and> \<not> aiThinking (fst (dash_sendMessage_with typer http d)))
      \<and> (\<not> dash_settles http \<longrightarrow> snd (snd (dash_sendMessage_with typer http d)) = Pending)
      \<and> typing_indicators (fst (dash_sendMessage_with typer HttpPending d)) = 1
      \<and> aiThinking (fst (dash_sendMessage_with typer HttpPending d))"
proof (rule impI)
  assume a: "(trim (chat_input d) \<noteq> [] \<or> attached d \<noteq> []) \<and> typing_indicators d \<le> 1"
  then have st: "trim (chat_input d) \<noteq> [] \<or> attached d \<noteq> []" and one: "typing_indicators d \<le> 1"
    by simp_all
  note eq = dash_sendMessage_with_settles [of typer d http, OF settled st]
  have fin: "dash_settles http \<longrightarrow>
         snd (snd (dash_sendMessage_with typer http d)) = Fulfilled ()
         \<and> typing_indicators (fst (dash_sendMessage_with typer http d)) = 0
         \<and> \<not> aiThinking (fst (dash_sendMessage_with typer http d))"
    using dash_sendMessage_with_indicator [of typer d http, OF fields st one] eq by blast
  have pend: "\<not> dash_settles http \<longrightarrow> snd (snd (dash_sendMessage_with typer http d)) = Pending"
    using eq by blast
  show "(dash_settles http \<longrightarrow>
         snd (snd (dash_sendMessage_with typer http d)) = Fulfilled ()
         \<and> typing_indicators (fst (dash_sendMessage_with typer http d)) = 0
         \<and> \<not> aiThinking (fst (dash_sendMessage_with typer http d)))
      \<and> (\<not> dash_settles http \<longrightarrow> snd (snd (dash_sendMessage_with typer http d)) = Pending)
      \<and> typing_indicators (fst (dash_sendMessage_with typer HttpPending d)) = 1
      \<and> aiThinking (fst (dash_sendMessage_with typer HttpPending d))"
    using fin pend dash_sendMessage_with_shows_indicator [OF st one, of typer] by blast
qed

text \<open>
  C5. An invocation of \<open>sendMessage\<close> that gets past its first check shows the indicator:
  while \<open>fetch\<close> has not settled, the typing indicator of the chat page is on, and the
  dashboard (in both scripts, for a page with at most one typing indicator element when the
  call starts) has one typing indicator element and the thinking status on. Whenever the
  request has a terminal outcome, whether it succeeds, \<open>fetch\<close> throws a network error or
  the status is not a success, the invocation completes, fulfilled since every error is
  caught, and the indicator is gone: the typing indicator of the chat page is hidden; on the
  dashboard no typing indicator element remains and the thinking status is off. The
  invocation stays pending only when the request has no terminal outcome (\<open>fetch\<close>, a read
  or the body never settles).
\<close>

theorem indicator_is_removed_when_sendMessage_completes:
  "((trim (input_value c) \<noteq> [] \<or> attachedImages c \<noteq> []) \<longrightarrow>
      (settles fetched \<longrightarrow>
         snd (sendMessage parse fetched c) = Fulfilled ()
         \<and> \<not> typingIndicator (fst (sendMessage parse fetched c)))
      \<and> (\<not> settles fetched \<longrightarrow> snd (sendMessage parse fetched c) = Pending)
      \<and> typingIndicator (fst (sendMessage parse FetchPending c)))
   \<and> ((trim (chat_input d) \<noteq> [] \<or> attached d \<noteq> []) \<and> typing_indicators d \<le> 1 \<longrightarrow>
      (dash_settles http \<longrightarrow>
         snd (snd (dash_sendMessage http d)) = Fulfilled ()
         \<and> typing_indicators (fst (dash_sendMessage http d)) = 0
         \<and> \<not> aiThinking (fst (dash_sendMessage http d)))
      \<and> (\<not> dash_settles http \<longrightarrow> snd (snd (dash_sendMessage http d)) = Pending)
      \<and> typing_indicators (fst (dash_sendMessage HttpPending d)) = 1
      \<and> aiThinking (fst (dash_sendMessage HttpPending d)))
   \<and> ((trim (chat_input d) \<noteq> [] \<or> attached d \<noteq> []) \<and> typing_indicators d \<le> 1 \<longrightarrow>
      (dash_settles http \<longrightarrow>
         snd (snd (dash_sendMessage_new http d)) = Fulfilled ()
         \<and> typing_indicators (fst (dash_sendMessage_new http d)) = 0
         \<and> \<not> aiThinking (fst (dash_sendMessage_new http d)))
      \<and> (\<not> dash_settles http \<longrightarrow> snd (snd (dash_sendMessage_new http d)) = Pending)
      \<and> typing_indicators (fst (dash_sendMessage_new HttpPending d)) = 1
      \<and> aiThinking (fst (dash_sendMessage_new HttpPending d)))"
proof -
  have A: "(trim (input_value c) \<noteq> [] \<or> attachedImages c \<noteq> []) \<longrightarrow>
      (settles fetched \<longrightarrow>
         snd (sendMessage parse fetched c) = Fulfilled ()
         \<and> \<not> typingIndicator (fst (sendMessage parse fetched c)))
      \<and> (\<not> settles fetched \<longrightarrow> snd (sendMessage parse fetched c) = Pending)
      \<and> typingIndicator (fst (sendMessage parse FetchPending c))"
    using sendMessage_settles [of c parse fetched] sendMessage_indicator [of c parse fetched]
      sendMessage_shows_indicator [of c parse]
    by blast
  show ?thesis
    unfolding dash_sendMessage_def dash_sendMessage_new_def
    by (intro conjI A
        dash_sendMessage_with_outcome [OF typeAIResponse_other_fields typeAIResponse_settled]
        dash_sendMessage_with_outcome [OF typeAIResponse_new_other_fields
          typeAIResponse_new_settled])
qed

text \<open>
  C7. When the trimmed input is empty and no image is attached, \<open>sendMessage\<close> returns at
  once in all three scripts: the page and the instance are as they were (no message added,
  no indicator shown, the input as it was), and no request has been made, \<open>requests\<close> and
  \<open>posted\<close> being part of the state. What \<open>fetch\<close> would have given plays no part.
\<close>

theorem empty_message_is_not_sent:
  "(trim (input_value c) = [] \<and> attachedImages c = [] \<longrightarrow>
      sendMessage parse fetched c = (c, Fulfilled ()))
   \<and> (trim (chat_input d) = [] \<and> attached d = [] \<longrightarrow>
      dash_sendMessage http d = (d, [], Fulfilled ())
      \<and> dash_sendMessage_new http d = (d, [], Fulfilled ()))"
  by (simp add: sendMessage_def dash_sendMessage_def dash_sendMessage_new_def
      dash_sendMessage_with_def)


text \<open>Unfolding a concrete run of the dashboard.\<close>

lemmas dash_defs =
  dash_sendMessage_def dash_sendMessage_new_def dash_sendMessage_with_def callAI_def
  answer_of_def typeAIResponse_def typeAIResponse_new_def dash_addMessage_def
  dash_handleInputChange_def dash_hideTypingIndicator_def dash_showTypingIndicator_def
  showAIThinking_def hideAIThinking_def dash_catch_def set_bubble_def fresh_dashboard_def
  typed_dashboard_def js_length_def

lemma trim_Nil: "trim [] = []"
  by code_simp

lemma trim_blank: "trim ''   '' = []"
  by code_simp

text \<open>An input of three spaces: nothing changes and nothing is sent.\<close>

theorem blank_input_run:
  \<open>trim ''   '' = []
   \<and> sendMessage JSON_parse (Response True 200 (Some [(0, Done)])) (typed_chat ''   '')
       = (typed_chat ''   '', Fulfilled ())
   \<and> requests (typed_chat ''   '') = []
   \<and> dash_sendMessage (HttpResponse True 200 (BodyJson (JObject [(''response'', JString ''x'')])))
        (typed_dashboard ''   '') = (typed_dashboard ''   '', [], Fulfilled ())
   \<and> dash_sendMessage_new (HttpResponse True 200 (BodyJson (JObject [(''response'', JString ''x'')])))
        (typed_dashboard ''   '') = (typed_dashboard ''   '', [], Fulfilled ())
   \<and> posted (typed_dashboard ''   '') = []\<close>
proof -
  have h1: "trim (input_value (typed_chat ''   '')) = [] \<and> attachedImages (typed_chat ''   '') = []"
    by (simp add: typed_chat_def fresh_chat_def trim_blank)
  have h2: "trim (chat_input (typed_dashboard ''   '')) = [] \<and> attached (typed_dashboard ''   '') = []"
    by (simp add: typed_dashboard_def fresh_dashboard_def trim_blank)
  note T = empty_message_is_not_sent
    [where c = "typed_chat ''   ''" and d = "typed_dashboard ''   ''" and parse = JSON_parse
       and fetched = "Response True 200 (Some [(0, Done)])"
       and http = "HttpResponse True 200 (BodyJson (JObject [(''response'', JString ''x'')]))"]
  from T h1 have a: "sendMessage JSON_parse (Response True 200 (Some [(0, Done)])) (typed_chat ''   '')
       = (typed_chat ''   '', Fulfilled ())"
    by blast
  from T h2 have b: "dash_sendMessage (HttpResponse True 200 (BodyJson (JObject [(''response'', JString ''x'')])))
        (typed_dashboard ''   '') = (typed_dashboard ''   '', [], Fulfilled ())
   \<and> dash_sendMessage_new (HttpResponse True 200 (BodyJson (JObject [(''response'', JString ''x'')])))
        (typed_dashboard ''   '') = (typed_dashboard ''   '', [], Fulfilled ())"
    by blast
  have r: "requests (typed_chat ''   '') = [] \<and> posted (typed_dashboard ''   '') = []"
    by (simp add: typed_chat_def fresh_chat_def typed_dashboard_def fresh_dashboard_def)
  show ?thesis
    using a b r trim_blank by (intro conjI) simp_all
qed

text \<open>
  The message \<open>hi\<close> on the chat page and on the fresh dashboard. While \<open>fetch\<close> is pending the
  indicator is on. With a network error, with status 500 and with a successful response the
  call is fulfilled and the indicator is gone; after the errors the conversation ends with
  the apology, after the success with the answer.
\<close>

theorem failed_and_successful_send_run:
  \<open>\<not> typingIndicator (typed_chat ''hi'')
   \<and> typingIndicator (fst (sendMessage JSON_parse FetchPending (typed_chat ''hi'')))
   \<and> snd (sendMessage JSON_parse FetchPending (typed_chat ''hi'')) = Pending
   \<and> snd (sendMessage JSON_parse FetchFailed (typed_chat ''hi'')) = Fulfilled ()
   \<and> \<not> typingIndicator (fst (sendMessage JSON_parse FetchFailed (typed_chat ''hi'')))
   \<and> map msg_content (chatMessages (fst (sendMessage JSON_parse FetchFailed (typed_chat ''hi''))))
       = [''hi'', chat_apology]
   \<and> snd (sendMessage JSON_parse (Response False 500 None) (typed_chat ''hi'')) = Fulfilled ()
   \<and> \<not> typingIndicator (fst (sendMessage JSON_parse (Response False 500 None) (typed_chat ''hi'')))
   \<and> map msg_content (chatMessages (fst (sendMessage JSON_parse (Response False 500 None)
        (typed_chat ''hi'')))) = [''hi'', chat_apology]
   \<and> snd (sendMessage JSON_parse
        (Response True 200 (Some [(0, Chunk ''data: {"content":"A"}\<newline>''), (0, Done)]))
        (typed_chat ''hi'')) = Fulfilled ()
   \<and> \<not> typingIndicator (fst (sendMessage JSON_parse
        (Response True 200 (Some [(0, Chunk ''data: {"content":"A"}\<newline>''), (0, Done)]))
        (typed_chat ''hi'')))
   \<and> map msg_content (chatMessages (fst (sendMessage JSON_parse
        (Response True 200 (Some [(0, Chunk ''data: {"content":"A"}\<newline>''), (0, Done)]))
        (typed_chat ''hi'')))) = [''hi'', ''A'']
   \<and> typing_indicators (fst (dash_sendMessage HttpPending (typed_dashboard ''hi''))) = 1
   \<and> aiThinking (fst (dash_sendMessage HttpPending (typed_dashboard ''hi'')))
   \<and> snd (snd (dash_sendMessage HttpPending (typed_dashboard ''hi''))) = Pending
   \<and> snd (snd (dash_sendMessage HttpFailed (typed_dashboard ''hi''))) = Fulfilled ()
   \<and> typing_indicators (fst (dash_sendMessage HttpFailed (typed_dashboard ''hi''))) = 0
   \<and> \<not> aiThinking (fst (dash_sendMessage HttpFailed (typed_dashboard ''hi'')))
   \<and> bubbles (fst (dash_sendMessage HttpFailed (typed_dashboard ''hi'')))
       = [(User, ''hi''), (Agent, dash_apology)]
   \<and> snd (snd (dash_sendMessage (HttpResponse False 500 BodyInvalid) (typed_dashboard ''hi'')))
       = Fulfilled ()
   \<and> typing_indicators (fst (dash_sendMessage (HttpResponse False 500 BodyInvalid)
        (typed_dashboard ''hi''))) = 0
   \<and> \<not> aiThinking (fst (dash_sendMessage (HttpResponse False 500 BodyInvalid)
        (typed_dashboard ''hi'')))
   \<and> typing_indicators (fst (dash_sendMessage_new HttpPending (typed_dashboard ''hi''))) = 1
   \<and> aiThinking (fst (dash_sendMessage_new HttpPending (typed_dashboard ''hi'')))
   \<and> snd (snd (dash_sendMessage_new
        (HttpResponse True 200 (BodyJson (JObject [(''response'', JString ''ok'')])))
        (typed_dashboard ''hi''))) = Fulfilled ()
   \<and> typing_indicators (fst (dash_sendMessage_new
        (HttpResponse True 200 (BodyJson (JObject [(''response'', JString ''ok'')])))
        (typed_dashboard ''hi''))) = 0
   \<and> \<not> aiThinking (fst (dash_sendMessage_new
        (HttpResponse True 200 (BodyJson (JObject [(''response'', JString ''ok'')])))
        (typed_dashboard ''hi'')))
   \<and> bubbles (fst (dash_sendMessage_new
        (HttpResponse True 200 (BodyJson (JObject [(''response'', JString ''ok'')])))
        (typed_dashboard ''hi''))) = [(User, ''hi''), (Agent, ''ok'')]\<close>
proof -
  have c: "trim (input_value (typed_chat ''hi'')) \<noteq> [] \<or> attachedImages (typed_chat ''hi'') \<noteq> []"
    by (simp add: typed_chat_def fresh_chat_def trim_hi)
  have d: "(trim (chat_input (typed_dashboard ''hi'')) \<noteq> [] \<or> attached (typed_dashboard ''hi'') \<noteq> [])
      \<and> typing_indicators (typed_dashboard ''hi'') \<le> 1"
    by (simp add: typed_dashboard_def fresh_dashboard_def trim_hi)
  have s1: "settles FetchFailed" "settles (Response False 500 None)" "\<not> settles FetchPending"
    \<open>settles (Response True 200 (Some [(0, Chunk ''data: {"content":"A"}\<newline>''), (0, Done)]))\<close>
    by simp_all
  have s2: "dash_settles HttpFailed" "dash_settles (HttpResponse False 500 BodyInvalid)"
    "\<not> dash_settles HttpPending"
    "dash_settles (HttpResponse True 200 (BodyJson (JObject [(''response'', JString ''ok'')])))"
    by simp_all
  have before: "\<not> typingIndicator (typed_chat ''hi'')"
    by (simp add: typed_chat_def fresh_chat_def)
  have m1: "map msg_content (chatMessages (fst (sendMessage JSON_parse FetchFailed
      (typed_chat ''hi'')))) = [''hi'', chat_apology]"
    by (simp add: run_defs trim_hi Let_def)
  have m2: "map msg_content (chatMessages (fst (sendMessage JSON_parse (Response False 500 None)
      (typed_chat ''hi'')))) = [''hi'', chat_apology]"
    by (simp add: run_defs trim_hi Let_def)
  have m3: \<open>map msg_content (chatMessages (fst (sendMessage JSON_parse
        (Response True 200 (Some [(0, Chunk ''data: {"content":"A"}\<newline>''), (0, Done)]))
        (typed_chat ''hi'')))) = [''hi'', ''A'']\<close>
    by (simp add: run_defs parse_defs trim_hi Let_def)
  have b1: "bubbles (fst (dash_sendMessage HttpFailed (typed_dashboard ''hi'')))
       = [(User, ''hi''), (Agent, dash_apology)]"
    by (simp add: dash_defs trim_hi trim_Nil Let_def)
  have b3: "bubbles (fst (dash_sendMessage_new
        (HttpResponse True 200 (BodyJson (JObject [(''response'', JString ''ok'')])))
        (typed_dashboard ''hi''))) = [(User, ''hi''), (Agent, ''ok'')]"
    by (simp add: dash_defs trim_hi trim_Nil Let_def)
  from indicator_is_removed_when_sendMessage_completes
    [where c = "typed_chat ''hi''" and parse = JSON_parse and fetched = FetchFailed
       and d = "typed_dashboard ''hi''" and http = HttpFailed] c d s1 s2
  have r1: "typingIndicator (fst (sendMessage JSON_parse FetchPending (typed_chat ''hi'')))
      \<and> snd (sendMessage JSON_parse FetchFailed (typed_chat ''hi'')) = Fulfilled ()
      \<and> \<not> typingIndicator (fst (sendMessage JSON_parse FetchFailed (typed_chat ''hi'')))
      \<and> typing_indicators (fst (dash_sendMessage HttpPending (typed_dashboard ''hi''))) = 1
      \<and> aiThinking (fst (dash_sendMessage HttpPending (typed_dashboard ''hi'')))
      \<and> snd (snd (dash_sendMessage HttpFailed (typed_dashboard ''hi''))) = Fulfilled ()
      \<and> typing_indicators (fst (dash_sendMessage HttpFailed (typed_dashboard ''hi''))) = 0
      \<and> \<not> aiThinking (fst (dash_sendMessage HttpFailed (typed_dashboard ''hi'')))
      \<and> typing_indicators (fst (dash_sendMessage_new HttpPending (typed_dashboard ''hi''))) = 1
      \<and> aiThinking (fst (dash_sendMessage_new HttpPending (typed_dashboard ''hi'')))"
    by blast
  from indicator_is_removed_when_sendMessage_completes
    [where c = "typed_chat ''hi''" and parse = JSON_parse and fetched = FetchPending
       and d = "typed_dashboard ''hi''" and http = HttpPending] c d s1 s2
  have r0: "snd (sendMessage JSON_parse FetchPending (typed_chat ''hi'')) = Pending
      \<and> snd (snd (dash_sendMessage HttpPending (typed_dashboard ''hi''))) = Pending"
    by blast
  from indicator_is_removed_when_sendMessage_completes
    [where c = "typed_chat ''hi''" and parse = JSON_parse and fetched = "Response False 500 None"
       and d = "typed_dashboard ''hi''" and http = "HttpResponse False 500 BodyInvalid"] c d s1 s2
  have r2: "snd (sendMessage JSON_parse (Response False 500 None) (typed_chat ''hi'')) = Fulfilled ()
      \<and> \<not> typingIndicator (fst (sendMessage JSON_parse (Response False 500 None) (typed_chat ''hi'')))
      \<and> snd (snd (dash_sendMessage (HttpResponse False 500 BodyInvalid) (typed_dashboard ''hi'')))
          = Fulfilled ()
      \<and> typing_indicators (fst (dash_sendMessage (HttpResponse False 500 BodyInvalid)
          (typed_dashboard ''hi''))) = 0
      \<and> \<not> aiThinking (fst (dash_sendMessage (HttpResponse False 500 BodyInvalid)
          (typed_dashboard ''hi'')))"
    by blast
  from indicator_is_removed_when_sendMessage_completes
    [where c = "typed_chat ''hi''" and parse = JSON_parse
       and fetched = \<open>Response True 200 (Some [(0, Chunk ''data: {"content":"A"}\<newline>''), (0, Done)])\<close>
       and d = "typed_dashboard ''hi''"
       and http = "HttpResponse True 200 (BodyJson (JObject [(''response'', JString ''ok'')]))"]
    c d s1 s2
  have r3: \<open>snd (sendMessage JSON_parse
        (Response True 200 (Some [(0, Chunk ''data: {"content":"A"}\<newline>''), (0, Done)]))
        (typed_chat ''hi'')) = Fulfilled ()
      \<and> \<not> typingIndicator (fst (sendMessage JSON_parse
        (Response True 200 (Some [(0, Chunk ''data: {"content":"A"}\<newline>''), (0, Done)]))
        (typed_chat ''hi'')))
      \<and> snd (snd (dash_sendMessage_new
        (HttpResponse True 200 (BodyJson (JObject [(''response'', JString ''ok'')])))
        (typed_dashboard ''hi''))) = Fulfilled ()
      \<and> typing_indicators (fst (dash_sendMessage_new
        (HttpResponse True 200 (BodyJson (JObject [(''response'', JString ''ok'')])))
        (typed_dashboard ''hi''))) = 0
      \<and> \<not> aiThinking (fst (dash_sendMessage_new
        (HttpResponse True 200 (BodyJson (JObject [(''response'', JString ''ok'')])))
        (typed_dashboard ''hi'')))\<close>
    by blast
  show ?thesis
    using before r0 r1 r2 r3 m1 m2 m3 b1 b3 by (intro conjI) blast+
qed

end
